theory Spec2Isabelle
  imports Complex_Main "HOL-Library.Char_ord" "HOL-Library.List_Lexorder" "HOL-Library.Multiset"
begin

section \<open>The embedding cache (EmbeddingService.ts)\<close>

text \<open>
  The status tag of \<^verbatim>\<open>FileEmbeddingStatus['status']\<close>:
  \<^verbatim>\<open>'up-to-date' | 'modified' | 'new' | 'processing'\<close>.
\<close>

datatype embedding_status = UpToDate | Modified | New | Processing

text \<open>
  \<^verbatim>\<open>interface FileEmbeddingStatus\<close> and \<^verbatim>\<open>interface EmbeddingCache\<close> of types.ts.
  Timestamps are millisecond counts, modelled as integers. The two
  \<^verbatim>\<open>Record<string, _>\<close> fields are partial maps from paths.
\<close>

record FileEmbeddingStatus =
  path :: string
  lastModified :: int
  embeddingGenerated :: int
  status :: embedding_status

record EmbeddingCache =
  version :: string
  files :: "string \<rightharpoonup> FileEmbeddingStatus"
  embeddings :: "string \<rightharpoonup> real list"

text \<open>
  The part of Obsidian's \<^verbatim>\<open>TFile\<close> that the service reads: \<^verbatim>\<open>file.path\<close>,
  \<^verbatim>\<open>file.basename\<close> and \<^verbatim>\<open>file.stat.mtime\<close>.
\<close>

record TFile =
  file_path :: string
  basename :: string
  mtime :: int

text \<open>
  \<^verbatim>\<open>getFileStatus(file)\<close>: the lookup \<^verbatim>\<open>this.embeddingCache.files[file.path]\<close> is
  undefined exactly when the path has no record.
\<close>

definition getFileStatus :: "EmbeddingCache \<Rightarrow> TFile \<Rightarrow> embedding_status" where
  "getFileStatus cache file =
     (case files cache (file_path file) of
        None \<Rightarrow> New
      | Some cached \<Rightarrow>
          if mtime file > embeddingGenerated cached then Modified else UpToDate)"

text \<open>The counters object built by \<^verbatim>\<open>getEmbeddingStats\<close>.\<close>

record embedding_stats =
  total :: nat
  upToDate :: nat
  modified :: nat
  new :: nat
  processing :: nat

text \<open>The body of the \<^verbatim>\<open>for (const file of files)\<close> loop: one \<^verbatim>\<open>switch\<close> on the status.\<close>

definition countStatus :: "EmbeddingCache \<Rightarrow> embedding_stats \<Rightarrow> TFile \<Rightarrow> embedding_stats" where
  "countStatus cache stats file =
     (case getFileStatus cache file of
        UpToDate \<Rightarrow> stats\<lparr>upToDate := upToDate stats + 1\<rparr>
      | Modified \<Rightarrow> stats\<lparr>modified := modified stats + 1\<rparr>
      | New \<Rightarrow> stats\<lparr>new := new stats + 1\<rparr>
      | Processing \<Rightarrow> stats\<lparr>processing := processing stats + 1\<rparr>)"

definition getEmbeddingStats :: "EmbeddingCache \<Rightarrow> TFile list \<Rightarrow> embedding_stats" where
  "getEmbeddingStats cache fs =
     foldl (countStatus cache)
       \<lparr>total = length fs, upToDate = 0, modified = 0, new = 0, processing = 0\<rparr> fs"


section \<open>The similarity graph (calculateCosineSimilarity and the graph view)\<close>

text \<open>
  JavaScript numbers are modelled as real numbers wherever the code guards its
  divisions; rounding, overflow and \<^verbatim>\<open>NaN\<close> inputs are outside the model. A thrown
  \<^verbatim>\<open>Error(message)\<close> is a value carrying the message.
\<close>

datatype error = Error string

text \<open>
  The accumulation loop of \<^verbatim>\<open>calculateCosineSimilarity\<close>: the index runs over
  \<^verbatim>\<open>0 .. vec1.length - 1\<close> and updates the three sums together.
\<close>

definition cosineSums :: "real list \<Rightarrow> real list \<Rightarrow> real \<times> real \<times> real" where
  "cosineSums vec1 vec2 =
     foldl (\<lambda>(dotProduct, magnitude1, magnitude2) i.
              (dotProduct + vec1 ! i * vec2 ! i,
               magnitude1 + vec1 ! i * vec1 ! i,
               magnitude2 + vec2 ! i * vec2 ! i))
       (0, 0, 0) [0..<length vec1]"

definition calculateCosineSimilarity :: "real list \<Rightarrow> real list \<Rightarrow> error + real" where
  "calculateCosineSimilarity vec1 vec2 =
     (if length vec1 \<noteq> length vec2 then Inl (Error ''Vectors must have the same length'')
      else
        (case cosineSums vec1 vec2 of (dotProduct, m1, m2) \<Rightarrow>
           let magnitude1 = sqrt m1; magnitude2 = sqrt m2 in
           if magnitude1 = 0 \<or> magnitude2 = 0 then Inr 0
           else Inr (dotProduct / (magnitude1 * magnitude2))))"

text \<open>
  The settings read by the graph view. The two optional fields are
  \<^verbatim>\<open>maxSimilarLinksPerNode?: number\<close> and \<^verbatim>\<open>dynamicSimilarityPruning?: boolean\<close>.
\<close>

record graph_settings =
  similarityThreshold :: real
  maxSimilarLinksPerNode :: "int option"
  dynamicSimilarityPruning :: "bool option"
  minLinkThickness :: real
  maxLinkThickness :: real

text \<open>
  \<^verbatim>\<open>calculateThicknessFromSimilarity\<close> divides by \<^verbatim>\<open>1.0 - similarityThreshold\<close>
  without a guard, so its result is a JavaScript number that may be infinite or
  \<^verbatim>\<open>NaN\<close>. HOL's \<open>x / 0 = 0\<close> is not what the program computes; the three
  operations below write out the IEEE results the function can reach. The divisor
  \<^verbatim>\<open>1.0 - t\<close> is \<^verbatim>\<open>+0\<close> when it is zero.
\<close>

datatype jsnum = Finite real | PosInfinity | NegInfinity | NaN

definition js_div :: "real \<Rightarrow> real \<Rightarrow> jsnum" where
  "js_div x y =
     (if y \<noteq> 0 then Finite (x / y)
      else if x = 0 then NaN
      else if x > 0 then PosInfinity else NegInfinity)"

fun js_mul :: "jsnum \<Rightarrow> real \<Rightarrow> jsnum" where
  "js_mul (Finite a) b = Finite (a * b)"
| "js_mul PosInfinity b = (if b > 0 then PosInfinity else if b < 0 then NegInfinity else NaN)"
| "js_mul NegInfinity b = (if b > 0 then NegInfinity else if b < 0 then PosInfinity else NaN)"
| "js_mul NaN b = NaN"

fun js_add :: "real \<Rightarrow> jsnum \<Rightarrow> jsnum" where
  "js_add a (Finite b) = Finite (a + b)"
| "js_add a PosInfinity = PosInfinity"
| "js_add a NegInfinity = NegInfinity"
| "js_add a NaN = NaN"

definition calculateThicknessFromSimilarity :: "graph_settings \<Rightarrow> real \<Rightarrow> jsnum" where
  "calculateThicknessFromSimilarity st similarity =
     (let normalizedSimilarity =
            js_div (similarity - similarityThreshold st) (1.0 - similarityThreshold st)
      in js_add (minLinkThickness st)
           (js_mul normalizedSimilarity (maxLinkThickness st - minLinkThickness st)))"

text \<open>
  The fields of \<^verbatim>\<open>GraphNode\<close> and \<^verbatim>\<open>GraphLink\<close> that the link builder touches.
  \<^verbatim>\<open>embedding\<close> is \<open>None\<close> for \<^verbatim>\<open>undefined\<close>; an empty array is a present
  embedding, as it is truthy in JavaScript.
\<close>

record GraphNode =
  node_id :: string
  embedding :: "real list option"

datatype link_type = Link | TagLink | ManualLink

record GraphLink =
  source :: string
  target :: string
  link_id :: string
  similarity :: "real option"
  thickness :: "jsnum option"
  type :: "link_type option"

text \<open>An entry \<^verbatim>\<open>{ otherId, sim }\<close> of a per-node candidate list.\<close>

record candidate =
  otherId :: string
  sim :: real

text \<open>
  \<^verbatim>\<open>manualLinkPairs\<close>: both orientations of every manual link, as the strings
  \<^verbatim>\<open>`${sourceId}|${targetId}`\<close>.
\<close>

definition manualLinkPairs :: "GraphLink list \<Rightarrow> string set" where
  "manualLinkPairs links =
     set (concat (map (\<lambda>link.
        if type link = Some ManualLink
        then [source link @ ''|'' @ target link, target link @ ''|'' @ source link]
        else []) links))"

text \<open>
  \<^verbatim>\<open>perNodeCandidates\<close> is a \<^verbatim>\<open>Map\<close>, which iterates in insertion order: an
  association list whose keys are added at the end. \<open>ensureKey\<close> is
  \<^verbatim>\<open>if (!m.has(k)) m.set(k, [])\<close> and \<open>pushCandidate\<close> is \<^verbatim>\<open>m.get(k)!.push(c)\<close>.
\<close>

type_synonym candidate_map = "(string \<times> candidate list) list"

definition ensureKey :: "candidate_map \<Rightarrow> string \<Rightarrow> candidate_map" where
  "ensureKey m k = (if k \<in> fst ` set m then m else m @ [(k, [])])"

definition pushCandidate :: "candidate_map \<Rightarrow> string \<Rightarrow> candidate \<Rightarrow> candidate_map" where
  "pushCandidate m k c = map (\<lambda>(k', cs). if k' = k then (k', cs @ [c]) else (k', cs)) m"

definition addPair :: "candidate_map \<Rightarrow> string \<Rightarrow> string \<Rightarrow> real \<Rightarrow> candidate_map" where
  "addPair m a b simAB =
     (let m1 = ensureKey m a;
          m2 = ensureKey m1 b;
          m3 = pushCandidate m2 a \<lparr>otherId = b, sim = simAB\<rparr>
      in pushCandidate m3 b \<lparr>otherId = a, sim = simAB\<rparr>)"

text \<open>
  The inner loop \<^verbatim>\<open>for (j = i + 1; ...)\<close> for a fixed \<^verbatim>\<open>nodeA\<close> with embedding
  \<open>ea\<close>, over the nodes after it; an exception of the cosine leaves the whole
  function.
\<close>

fun innerLoop ::
  "graph_settings \<Rightarrow> string set \<Rightarrow> GraphNode \<Rightarrow> real list \<Rightarrow> candidate_map
     \<Rightarrow> GraphNode list \<Rightarrow> error + candidate_map" where
  "innerLoop st manual nodeA ea m [] = Inr m"
| "innerLoop st manual nodeA ea m (nodeB # rest) =
     (case embedding nodeB of
        None \<Rightarrow> innerLoop st manual nodeA ea m rest
      | Some eb \<Rightarrow>
          if node_id nodeA @ ''|'' @ node_id nodeB \<in> manual
          then innerLoop st manual nodeA ea m rest
          else
            (case calculateCosineSimilarity ea eb of
               Inl e \<Rightarrow> Inl e
             | Inr simAB \<Rightarrow>
                 if simAB \<ge> similarityThreshold st
                 then innerLoop st manual nodeA ea
                        (addPair m (node_id nodeA) (node_id nodeB) simAB) rest
                 else innerLoop st manual nodeA ea m rest))"

fun outerLoop ::
  "graph_settings \<Rightarrow> string set \<Rightarrow> candidate_map \<Rightarrow> GraphNode list
     \<Rightarrow> error + candidate_map" where
  "outerLoop st manual m [] = Inr m"
| "outerLoop st manual m (nodeA # rest) =
     (case embedding nodeA of
        None \<Rightarrow> outerLoop st manual m rest
      | Some ea \<Rightarrow>
          (case innerLoop st manual nodeA ea m rest of
             Inl e \<Rightarrow> Inl e
           | Inr m' \<Rightarrow> outerLoop st manual m' rest))"

text \<open>
  \<^verbatim>\<open>maxSimilarLinksPerNode || 0\<close> and \<^verbatim>\<open>dynamicSimilarityPruning || false\<close>.
\<close>

definition maxLinks :: "graph_settings \<Rightarrow> int" where
  "maxLinks st = (case maxSimilarLinksPerNode st of None \<Rightarrow> 0 | Some n \<Rightarrow> n)"

definition useDynamic :: "graph_settings \<Rightarrow> bool" where
  "useDynamic st = (case dynamicSimilarityPruning st of None \<Rightarrow> False | Some b \<Rightarrow> b)"

text \<open>
  The adjusted threshold of one node; the two \<^verbatim>\<open>reduce\<close> calls are left folds
  from 0.
\<close>

definition thresholdAdj :: "graph_settings \<Rightarrow> candidate list \<Rightarrow> real" where
  "thresholdAdj st candidates =
     (if useDynamic st \<and> length candidates \<ge> 4 then
        let sims = map sim candidates;
            mean = foldl (\<lambda>a b. a + b) 0 sims / real (length sims);
            variance = foldl (\<lambda>a b. a + (b - mean) * (b - mean)) 0 sims / real (length sims);
            std = sqrt variance
        in max (similarityThreshold st) (mean + 0.35 * std)
      else similarityThreshold st)"

text \<open>
  Filter, sort and cap. \<^verbatim>\<open>Array.prototype.sort\<close> is stable, and the comparator
  \<^verbatim>\<open>b.sim - a.sim\<close> orders by descending similarity: a stable insertion sort on
  the negated similarity.
\<close>

definition pruneCandidates :: "graph_settings \<Rightarrow> candidate list \<Rightarrow> candidate list" where
  "pruneCandidates st candidates =
     (let filtered = filter (\<lambda>c. sim c \<ge> thresholdAdj st candidates) candidates;
          sorted = sort_key (\<lambda>c. - sim c) filtered
      in if maxLinks st > 0 \<and> int (length sorted) > maxLinks st
         then take (nat (maxLinks st)) sorted
         else sorted)"

text \<open>
  The order-independent key of a pair. JavaScript compares strings code unit by
  code unit, the shorter string first when it is a prefix: the lexicographic order
  on character lists.
\<close>

definition pairKey :: "string \<Rightarrow> string \<Rightarrow> string" where
  "pairKey a b = (if a < b then a @ ''|'' @ b else b @ ''|'' @ a)"

text \<open>
  The loop \<^verbatim>\<open>for (const c of filtered)\<close>: the state is \<^verbatim>\<open>addedPairs\<close> and the links
  pushed so far.
\<close>

fun addLinks ::
  "graph_settings \<Rightarrow> string \<Rightarrow> candidate list \<Rightarrow> string set \<times> GraphLink list
     \<Rightarrow> string set \<times> GraphLink list" where
  "addLinks st nodeId [] acc = acc"
| "addLinks st nodeId (c # cs) (addedPairs, pushed) =
     (let a = nodeId; b = otherId c in
      if pairKey a b \<in> addedPairs then addLinks st nodeId cs (addedPairs, pushed)
      else addLinks st nodeId cs
             (insert (pairKey a b) addedPairs,
              pushed @ [\<lparr>source = a, target = b, link_id = a @ ''<->'' @ b,
                         similarity = Some (sim c),
                         thickness = Some (calculateThicknessFromSimilarity st (sim c)),
                         type = None\<rparr>]))"

text \<open>The callback of \<^verbatim>\<open>perNodeCandidates.forEach\<close>.\<close>

definition forEachNode ::
  "graph_settings \<Rightarrow> string set \<times> GraphLink list \<Rightarrow> string \<times> candidate list
     \<Rightarrow> string set \<times> GraphLink list" where
  "forEachNode st acc entry =
     (case entry of (nodeId, candidates) \<Rightarrow>
        if length candidates = 0 then acc
        else addLinks st nodeId (pruneCandidates st candidates) acc)"

text \<open>
  \<open>buildCandidates\<close> is the first half of \<^verbatim>\<open>createEmbeddingBasedLinks\<close> (the
  candidate map after the double loop), \<open>emittedLinks\<close> the links the second
  half pushes, and \<open>createEmbeddingBasedLinks\<close> the value of \<^verbatim>\<open>this.links\<close>
  afterwards. \<open>links\<close> is \<^verbatim>\<open>this.links\<close> on entry and \<open>nodesArray\<close> is
  \<^verbatim>\<open>Array.from(nodeMap.values())\<close>.
\<close>

definition buildCandidates ::
  "graph_settings \<Rightarrow> GraphLink list \<Rightarrow> GraphNode list \<Rightarrow> error + candidate_map" where
  "buildCandidates st links nodesArray = outerLoop st (manualLinkPairs links) [] nodesArray"

definition emittedLinks :: "graph_settings \<Rightarrow> candidate_map \<Rightarrow> GraphLink list" where
  "emittedLinks st perNodeCandidates = snd (foldl (forEachNode st) ({}, []) perNodeCandidates)"

definition createEmbeddingBasedLinks ::
  "graph_settings \<Rightarrow> GraphLink list \<Rightarrow> GraphNode list \<Rightarrow> error + GraphLink list" where
  "createEmbeddingBasedLinks st links nodesArray =
     (case buildCandidates st links nodesArray of
        Inl e \<Rightarrow> Inl e
      | Inr perNodeCandidates \<Rightarrow> Inr (links @ emittedLinks st perNodeCandidates))"


text \<open>
  The specification's vocabulary for the cosine: the dot product and the Euclidean
  magnitude of a vector.
\<close>

definition dot :: "real list \<Rightarrow> real list \<Rightarrow> real" where
  "dot u v = (\<Sum>i<length u. u ! i * v ! i)"

definition magnitude :: "real list \<Rightarrow> real" where
  "magnitude u = sqrt (\<Sum>i<length u. u ! i * u ! i)"


text \<open>
  The specification's vocabulary for dynamic pruning: the mean and the population
  standard deviation of a list of similarities.
\<close>

definition mean :: "real list \<Rightarrow> real" where
  "mean xs = sum_list xs / real (length xs)"

definition populationStd :: "real list \<Rightarrow> real" where
  "populationStd xs = sqrt (sum_list (map (\<lambda>x. (x - mean xs)\<^sup>2) xs) / real (length xs))"


text \<open>
  Two notions for reasoning about the candidate map: the set of (node, candidate)
  entries it holds, and the fact that a candidate entry comes from scoring the
  embeddings of two given nodes at or above the configured threshold.
\<close>

definition cands :: "candidate_map \<Rightarrow> (string \<times> candidate) set" where
  "cands m = {(k, c). \<exists>cs. (k, cs) \<in> set m \<and> c \<in> set cs}"

definition scoredPair :: "graph_settings \<Rightarrow> GraphNode \<Rightarrow> GraphNode \<Rightarrow> string \<Rightarrow> candidate \<Rightarrow> bool" where
  "scoredPair st a b k c \<longleftrightarrow>
     (case (embedding a, embedding b) of
        (Some ea, Some eb) \<Rightarrow>
          calculateCosineSimilarity ea eb = Inr (sim c)
          \<and> sim c \<ge> similarityThreshold st
          \<and> ((k = node_id a \<and> otherId c = node_id b) \<or> (k = node_id b \<and> otherId c = node_id a))
      | _ \<Rightarrow> False)"


text \<open>
  The pair key of a pushed link, and the loop invariant of the deduplication: every
  pushed link has its key in \<^verbatim>\<open>addedPairs\<close> and no two pushed links share a key.
\<close>

definition linkKey :: "GraphLink \<Rightarrow> string" where
  "linkKey l = pairKey (source l) (target l)"

definition keysOK :: "string set \<times> GraphLink list \<Rightarrow> bool" where
  "keysOK acc \<longleftrightarrow> linkKey ` set (snd acc) \<subseteq> fst acc \<and> distinct (map linkKey (snd acc))"


section \<open>The text normaliser (extractHeadingsAndFirstWords)\<close>

text \<open>
  Strings are lists of 8-bit characters: the model covers contents whose UTF-16
  code units are below 256. In that range the regular-expression class \<^verbatim>\<open>\s\<close>
  (and \<^verbatim>\<open>trim\<close>) is tab, line feed, vertical tab, form feed, carriage return,
  space and no-break space; the line terminators, which \<^verbatim>\<open>.\<close> does not match and
  at which \<^verbatim>\<open>^\<close> and \<^verbatim>\<open>$\<close> anchor under the \<^verbatim>\<open>m\<close> flag, are line feed and
  carriage return.
\<close>

definition is_space :: "char \<Rightarrow> bool" where
  "is_space c \<longleftrightarrow>
     c = CHR 0x09 \<or> c = CHR 0x0A \<or> c = CHR 0x0B \<or> c = CHR 0x0C \<or> c = CHR 0x0D
     \<or> c = CHR 0x20 \<or> c = CHR 0xA0"

definition is_lt :: "char \<Rightarrow> bool" where
  "is_lt c \<longleftrightarrow> c = CHR 0x0A \<or> c = CHR 0x0D"

text \<open>\<^verbatim>\<open>String.prototype.trim\<close>.\<close>

definition trim :: "string \<Rightarrow> string" where
  "trim s = rev (dropWhile is_space (rev (dropWhile is_space s)))"

text \<open>
  \<^verbatim>\<open>toLowerCase\<close> on one code unit below 256: the letters A to Z and the
  accented capitals 0xC0 to 0xDE other than the multiplication sign move up by 32.
\<close>

definition toLowerCase_char :: "char \<Rightarrow> char" where
  "toLowerCase_char c =
     (let n = (of_char c :: nat) in
      if (65 \<le> n \<and> n \<le> 90) \<or> (192 \<le> n \<and> n \<le> 222 \<and> n \<noteq> 215)
      then char_of (n + 32) else c)"

definition toLowerCase :: "string \<Rightarrow> string" where
  "toLowerCase w = map toLowerCase_char w"

text \<open>\<^verbatim>\<open>Array.prototype.join\<close>.\<close>

fun join :: "string \<Rightarrow> string list \<Rightarrow> string" where
  "join sep [] = []"
| "join sep [x] = x"
| "join sep (x # y # ys) = x @ sep @ join sep (y # ys)"

text \<open>
  \<^verbatim>\<open>Array.prototype.slice(start, end)\<close> with its relative indices: a negative
  index counts from the end, both are clamped to the length, and an empty range
  gives the empty array.
\<close>

definition slice :: "'a list \<Rightarrow> int \<Rightarrow> int \<Rightarrow> 'a list" where
  "slice xs start stop =
     (let len = int (length xs);
          k = (if start < 0 then max (len + start) 0 else min start len);
          final = (if stop < 0 then max (len + stop) 0 else min stop len)
      in take (nat (final - k)) (drop (nat k) xs))"

text \<open>
  \<^verbatim>\<open>split(/\s+/)\<close>: the pieces between maximal runs of white space, with an empty
  first piece when the string starts with white space and an empty last piece when
  it ends with it; the empty string gives one empty piece. The flag tells whether
  the previous character belonged to a separator.
\<close>

fun split_ws :: "bool \<Rightarrow> string \<Rightarrow> string list" where
  "split_ws insep [] = [[]]"
| "split_ws insep (c # cs) =
     (if is_space c then (if insep then split_ws True cs else [] # split_ws True cs)
      else (case split_ws False cs of
              w # ws \<Rightarrow> (c # w) # ws
            | [] \<Rightarrow> [[c]]))"

text \<open>
  A matcher answers, for a position of the subject given as the rest of the string
  from there and the fact whether the position starts a line (\<^verbatim>\<open>^\<close> under the
  \<^verbatim>\<open>m\<close> flag: the start of the string or just after a line terminator), the
  length of the match of one regular expression at that position, if there is one.
  None of the expressions below matches the empty string.

  \<open>replace_first\<close> is \<^verbatim>\<open>replace(re, '')\<close> without the \<^verbatim>\<open>g\<close> flag: the leftmost
  match is removed. \<open>replace_all\<close> is \<^verbatim>\<open>replace(re, '')\<close> with the \<^verbatim>\<open>g\<close> flag:
  matches are removed from left to right, the search resuming at the end of each
  match; the counter is the number of characters of the current match still to be
  dropped.
\<close>

type_synonym matcher = "bool \<Rightarrow> string \<Rightarrow> nat option"

fun replace_first :: "matcher \<Rightarrow> bool \<Rightarrow> string \<Rightarrow> string" where
  "replace_first m bol [] = []"
| "replace_first m bol (c # cs) =
     (case m bol (c # cs) of
        Some n \<Rightarrow> drop n (c # cs)
      | None \<Rightarrow> c # replace_first m (is_lt c) cs)"

fun replace_all :: "matcher \<Rightarrow> bool \<Rightarrow> nat \<Rightarrow> string \<Rightarrow> string" where
  "replace_all m bol k [] = []"
| "replace_all m bol (Suc k) (c # cs) = replace_all m (is_lt c) k cs"
| "replace_all m bol 0 (c # cs) =
     (case m bol (c # cs) of
        Some (Suc n) \<Rightarrow> replace_all m (is_lt c) n cs
      | _ \<Rightarrow> c # replace_all m (is_lt c) 0 cs)"

definition starts_with :: "string \<Rightarrow> string \<Rightarrow> bool" where
  "starts_with p s \<longleftrightarrow> take (length p) s = p"

text \<open>The index of the first occurrence of a pattern (\<^verbatim>\<open>indexOf\<close>).\<close>

fun find_sub :: "string \<Rightarrow> string \<Rightarrow> nat option" where
  "find_sub p [] = (if p = [] then Some 0 else None)"
| "find_sub p (c # cs) =
     (if starts_with p (c # cs) then Some 0 else map_option Suc (find_sub p cs))"

text \<open>\<^verbatim>\<open>String.prototype.includes\<close>.\<close>

definition js_includes :: "string \<Rightarrow> string \<Rightarrow> bool" where
  "js_includes s p \<longleftrightarrow> find_sub p s \<noteq> None"

text \<open>
  \<^verbatim>\<open>/^---[\s\S]*?---\n?/m\<close>: three dashes at a line start, the shortest stretch of
  any characters up to the next three dashes, and a line feed if one follows.
\<close>

definition match_frontmatter :: matcher where
  "match_frontmatter bol s =
     (if bol \<and> starts_with ''---'' s then
        (case find_sub ''---'' (drop 3 s) of
           None \<Rightarrow> None
         | Some k \<Rightarrow> Some (if starts_with [CHR 0x0A] (drop (k + 6) s) then k + 7 else k + 6))
      else None)"

text \<open>
  \<^verbatim>\<open>/^#{1,6}\s+.*$/gm\<close>: at a line start, one to six hash signs followed by white
  space (seven or more hash signs leave a hash sign where \<^verbatim>\<open>\s\<close> is needed, for
  every split of the run), then all the white space, line terminators included, and
  the rest of the line reached.
\<close>

definition match_heading_line :: matcher where
  "match_heading_line bol s =
     (let h = length (takeWhile (\<lambda>c. c = CHR ''#'') s);
          r = drop h s;
          w = length (takeWhile is_space r)
      in if bol \<and> 1 \<le> h \<and> h \<le> 6 \<and> 1 \<le> w
         then Some (h + w + length (takeWhile (\<lambda>c. \<not> is_lt c) (drop w r)))
         else None)"

text \<open>
  \<^verbatim>\<open>/^#{1,6}\s+(.+)$/gm\<close>, with the text of the group. It differs from the
  expression above when the white space after the hash signs runs to the end of the
  string: \<^verbatim>\<open>.+\<close> needs one character, so \<^verbatim>\<open>\s+\<close> gives back white space down to
  the last one that is not a line terminator (keeping at least one for itself), and
  the group is that single character.
\<close>

definition match_heading :: "bool \<Rightarrow> string \<Rightarrow> (nat \<times> string) option" where
  "match_heading bol s =
     (let h = length (takeWhile (\<lambda>c. c = CHR ''#'') s);
          r = drop h s;
          ws = takeWhile is_space r;
          rest = drop (length ws) r
      in if bol \<and> 1 \<le> h \<and> h \<le> 6 \<and> ws \<noteq> [] then
           (if rest \<noteq> [] then
              (let g = takeWhile (\<lambda>c. \<not> is_lt c) rest
               in Some (h + length ws + length g, g))
            else
              (case filter (\<lambda>j. \<not> is_lt (ws ! j)) (rev [1..<length ws]) of
                 [] \<Rightarrow> None
               | j # _ \<Rightarrow> Some (h + j + 1, [ws ! j])))
         else None)"

text \<open>
  The loop \<^verbatim>\<open>while ((match = headingRegex.exec(content)) !== null)\<close>, pushing
  \<^verbatim>\<open>match[1].trim()\<close>; the counter is as in \<open>replace_all\<close>.
\<close>

fun exec_headings :: "bool \<Rightarrow> nat \<Rightarrow> string \<Rightarrow> string list" where
  "exec_headings bol k [] = []"
| "exec_headings bol (Suc k) (c # cs) = exec_headings (is_lt c) k cs"
| "exec_headings bol 0 (c # cs) =
     (case match_heading bol (c # cs) of
        Some (Suc n, g) \<Rightarrow> trim g # exec_headings (is_lt c) n cs
      | _ \<Rightarrow> exec_headings (is_lt c) 0 cs)"

text \<open>
  \<^verbatim>\<open>/```[\s\S]*?```/g\<close>: three backquotes up to the next three backquotes.
\<close>

definition match_code_block :: matcher where
  "match_code_block bol s =
     (if starts_with [CHR 0x60, CHR 0x60, CHR 0x60] s then
        (case find_sub [CHR 0x60, CHR 0x60, CHR 0x60] (drop 3 s) of
           None \<Rightarrow> None
         | Some k \<Rightarrow> Some (k + 6))
      else None)"

text \<open>
  \<^verbatim>\<open>/\[.*?\]\(.*?\)/g\<close>. \<open>find_close\<close> is \<^verbatim>\<open>.*?\)\<close>: the number of characters
  up to and including the first closing parenthesis, none of those before it a line
  terminator. \<open>match_link_body\<close> is \<^verbatim>\<open>.*?\]\(.*?\)\<close>: the first lazy stretch
  grows one character at a time, never over a line terminator, until the rest
  matches.
\<close>

fun find_close :: "string \<Rightarrow> nat option" where
  "find_close [] = None"
| "find_close (c # cs) =
     (if c = CHR '')'' then Some 1
      else if is_lt c then None
      else map_option Suc (find_close cs))"

fun match_link_body :: "string \<Rightarrow> nat option" where
  "match_link_body [] = None"
| "match_link_body (c # cs) =
     (case (if starts_with ''](''  (c # cs) then find_close (drop 2 (c # cs)) else None) of
        Some k \<Rightarrow> Some (2 + k)
      | None \<Rightarrow> if is_lt c then None else map_option Suc (match_link_body cs))"

definition match_link :: matcher where
  "match_link bol s =
     (case s of
        [] \<Rightarrow> None
      | c # cs \<Rightarrow> if c = CHR ''['' then map_option Suc (match_link_body cs) else None)"

text \<open>The \<^verbatim>\<open>STOP\<close> set.\<close>

definition STOP :: "string list" where
  "STOP = [''the'', ''a'', ''an'', ''and'', ''or'', ''of'', ''in'', ''to'', ''for'', ''on'',
           ''with'', ''by'', ''at'', ''from'', ''this'', ''that'', ''is'', ''are'', ''be'',
           ''it'', ''as'', ''was'', ''were'', ''will'', ''can'', ''could'', ''should'',
           ''would'', ''have'', ''has'', ''had'', ''about'', ''note'', ''daily'',
           ''template'', ''summary'', ''tags'']"

text \<open>
  The plugin settings the normaliser looks up through
  \<^verbatim>\<open>this.app?.plugins?.getPlugin?.('graphene')?.settings\<close>: the whole object may be
  undefined, and so may each of the two fields.
\<close>

record normalizer_settings =
  embeddingWordSkip :: "int option"
  excludeHeadingsFromEmbedding :: "bool option"

text \<open>\<^verbatim>\<open>settings?.embeddingWordSkip || 0\<close>.\<close>

definition wordSkip :: "normalizer_settings option \<Rightarrow> int" where
  "wordSkip settings =
     (case settings of
        None \<Rightarrow> 0
      | Some s \<Rightarrow> (case embeddingWordSkip s of None \<Rightarrow> 0 | Some n \<Rightarrow> n))"

text \<open>\<^verbatim>\<open>settings?.excludeHeadingsFromEmbedding ?? true\<close>.\<close>

definition excludeHeadings :: "normalizer_settings option \<Rightarrow> bool" where
  "excludeHeadings settings =
     (case settings of
        None \<Rightarrow> True
      | Some s \<Rightarrow> (case excludeHeadingsFromEmbedding s of None \<Rightarrow> True | Some b \<Rightarrow> b))"

text \<open>The body text: front matter, heading lines, code blocks and links removed.\<close>

definition removeFrontmatter :: "string \<Rightarrow> string" where
  "removeFrontmatter content = replace_first match_frontmatter True content"

definition removeHeadingLines :: "string \<Rightarrow> string" where
  "removeHeadingLines s = replace_all match_heading_line True 0 s"

definition removeCodeBlocks :: "string \<Rightarrow> string" where
  "removeCodeBlocks s = replace_all match_code_block True 0 s"

definition removeLinks :: "string \<Rightarrow> string" where
  "removeLinks s = replace_all match_link True 0 s"

definition bodyText :: "string \<Rightarrow> string" where
  "bodyText content =
     trim (removeLinks (removeCodeBlocks (removeHeadingLines (removeFrontmatter content))))"

definition filteredWords :: "string \<Rightarrow> string list" where
  "filteredWords content =
     (let words = filter (\<lambda>word. length word > 0) (split_ws False (bodyText content))
      in filter (\<lambda>w. toLowerCase w \<notin> set STOP) words)"

definition extractHeadingsAndFirstWords ::
  "normalizer_settings option \<Rightarrow> string \<Rightarrow> int \<Rightarrow> string" where
  "extractHeadingsAndFirstWords settings content wordLimit =
     (let headings = exec_headings True 0 content;
          fw = filteredWords content;
          startIdx = max 0 (wordSkip settings);
          endIdx = min (int (length fw)) (startIdx + wordLimit);
          selectedWords = slice fw startIdx endIdx;
          firstWords = join '' '' selectedWords;
          combinedText =
            (if excludeHeadings settings then firstWords
             else
               (let headingText = join '' | '' headings
                in if headingText \<noteq> [] then headingText @ [CHR 0x0A, CHR 0x0A] @ firstWords
                   else firstWords))
      in trim combinedText)"


text \<open>
  Text without front matter, headings, code blocks or links: none of the four
  removals changes it and the heading search finds nothing.
\<close>

definition plainText :: "string \<Rightarrow> bool" where
  "plainText s \<longleftrightarrow>
     removeFrontmatter s = s \<and> removeHeadingLines s = s \<and> removeCodeBlocks s = s
     \<and> removeLinks s = s \<and> exec_headings True 0 s = []"


section \<open>Incremental generation (generateIncrementalEmbeddings)\<close>

text \<open>
  The world around the loop: \<^verbatim>\<open>vault.read\<close> and \<^verbatim>\<open>getEmbedding\<close> either return
  or throw an error with a message (\<open>Inl\<close>); \<^verbatim>\<open>getEmbedding\<close> may return a value
  that is not an array (\<open>None\<close>); \<open>now k\<close> is the value of the \<open>k\<close>-th call of
  \<^verbatim>\<open>Date.now()\<close> in the run; \<open>plugin_settings\<close> is what the normaliser looks up.
  The two optional callbacks are taken as absent, and \<^verbatim>\<open>saveCache\<close>, which only
  writes the file and catches its own errors, and the notices are left out.
\<close>

record environment =
  read :: "TFile \<Rightarrow> string + string"
  getEmbedding :: "string \<Rightarrow> string + real list option"
  now :: "nat \<Rightarrow> int"
  plugin_settings :: "normalizer_settings option"

text \<open>
  The state of the loop: the cache, the two counters, the number of clock readings
  taken so far and the paths handed to the provider so far.
\<close>

record run_state =
  embeddingCache :: EmbeddingCache
  processed :: nat
  failed :: nat
  ticks :: nat
  requested :: "string list"

text \<open>\<^verbatim>\<open>this.embeddingCache.files[p].status = s\<close>, on an existing record.\<close>

definition setStatus :: "EmbeddingCache \<Rightarrow> string \<Rightarrow> embedding_status \<Rightarrow> EmbeddingCache" where
  "setStatus c p s = c\<lparr>files := (files c)(p := map_option (\<lambda>r. r\<lparr>status := s\<rparr>) (files c p))\<rparr>"

text \<open>\<^verbatim>\<open>this.embeddingCache.files[p].embeddingGenerated = t\<close>.\<close>

definition setGenerated :: "EmbeddingCache \<Rightarrow> string \<Rightarrow> int \<Rightarrow> EmbeddingCache" where
  "setGenerated c p t =
     c\<lparr>files := (files c)(p := map_option (\<lambda>r. r\<lparr>embeddingGenerated := t\<rparr>) (files c p))\<rparr>"

text \<open>The files with status \<^verbatim>\<open>'new'\<close> or \<^verbatim>\<open>'modified'\<close>, in enumeration order.\<close>

definition needsUpdate :: "EmbeddingCache \<Rightarrow> TFile list \<Rightarrow> TFile list" where
  "needsUpdate c fs =
     filter (\<lambda>file. getFileStatus c file = New \<or> getFileStatus c file = Modified) fs"

text \<open>
  The statements before the \<^verbatim>\<open>try\<close>: the record of the file is replaced by one
  with status \<^verbatim>\<open>'processing'\<close> and the current time.
\<close>

definition beginProcessing :: "environment \<Rightarrow> run_state \<Rightarrow> TFile \<Rightarrow> run_state" where
  "beginProcessing env s file =
     s\<lparr>embeddingCache := (embeddingCache s)\<lparr>files := (files (embeddingCache s))(file_path file \<mapsto>
            \<lparr>path = file_path file, lastModified = mtime file,
             embeddingGenerated = now env (ticks s), status = Processing\<rparr>)\<rparr>,
       ticks := ticks s + 1\<rparr>"

text \<open>
  The \<^verbatim>\<open>catch\<close> block: count the failure; on a message containing \<^verbatim>\<open>429\<close> leave
  the loop (\<open>True\<close>) before anything else; otherwise mark the record
  \<^verbatim>\<open>'modified'\<close>.
\<close>

definition catchBlock :: "run_state \<Rightarrow> TFile \<Rightarrow> string \<Rightarrow> run_state \<times> bool" where
  "catchBlock s file message =
     (let s1 = s\<lparr>failed := failed s + 1\<rparr> in
      if message \<noteq> [] \<and> js_includes message ''429'' then (s1, True)
      else (s1\<lparr>embeddingCache := setStatus (embeddingCache s1) (file_path file) Modified\<rparr>, False))"

text \<open>
  The part of the \<^verbatim>\<open>try\<close> block after the provider has answered: a non-empty array
  is stored and the record marked \<^verbatim>\<open>'up-to-date'\<close> with a fresh time; anything else
  only counts as failed.
\<close>

definition storeResult :: "environment \<Rightarrow> run_state \<Rightarrow> TFile \<Rightarrow> real list option \<Rightarrow> run_state" where
  "storeResult env s file result =
     (case result of
        Some e \<Rightarrow>
          if length e > 0 then
            s\<lparr>embeddingCache :=
                 setGenerated
                   (setStatus
                      ((embeddingCache s)\<lparr>embeddings := (embeddings (embeddingCache s))(file_path file \<mapsto> e)\<rparr>)
                      (file_path file) UpToDate)
                   (file_path file) (now env (ticks s)),
              ticks := ticks s + 1,
              processed := processed s + 1\<rparr>
          else s\<lparr>failed := failed s + 1\<rparr>
      | None \<Rightarrow> s\<lparr>failed := failed s + 1\<rparr>)"

text \<open>One iteration of \<^verbatim>\<open>for (const file of needsUpdate)\<close>; the flag is \<^verbatim>\<open>break\<close>.\<close>

definition processFile :: "environment \<Rightarrow> run_state \<Rightarrow> TFile \<Rightarrow> run_state \<times> bool" where
  "processFile env s file =
     (let s1 = beginProcessing env s file in
      case read env file of
        Inl message \<Rightarrow> catchBlock s1 file message
      | Inr content \<Rightarrow>
          (let cleanedText = extractHeadingsAndFirstWords (plugin_settings env) content 100;
               s2 = s1\<lparr>requested := requested s1 @ [file_path file]\<rparr>
           in case getEmbedding env cleanedText of
                Inl message \<Rightarrow> catchBlock s2 file message
              | Inr result \<Rightarrow> (storeResult env s2 file result, False)))"

fun processFiles :: "environment \<Rightarrow> run_state \<Rightarrow> TFile list \<Rightarrow> run_state" where
  "processFiles env s [] = s"
| "processFiles env s (file # rest) =
     (case processFile env s file of
        (s', True) \<Rightarrow> s'
      | (s', False) \<Rightarrow> processFiles env s' rest)"

text \<open>
  \<^verbatim>\<open>generateIncrementalEmbeddings\<close>: the state after the run, started on cache
  \<open>c\<close> with the markdown files \<open>fs\<close> of the vault.
\<close>

definition generateIncrementalEmbeddings ::
  "environment \<Rightarrow> EmbeddingCache \<Rightarrow> TFile list \<Rightarrow> run_state" where
  "generateIncrementalEmbeddings env c fs =
     (let s0 = \<lparr>embeddingCache = c, processed = 0, failed = 0, ticks = 0, requested = []\<rparr> in
      if length (needsUpdate c fs) = 0 then s0
      else processFiles env s0 (needsUpdate c fs))"


text \<open>A word as the tokeniser yields it: not empty and free of white space.\<close>

definition goodWord :: "string \<Rightarrow> bool" where
  "goodWord w \<longleftrightarrow> w \<noteq> [] \<and> (\<forall>c\<in>set w. \<not> is_space c)"


section \<open>Properties of the status classification\<close>

lemma countStatus_processing:
  "processing (countStatus cache stats file) = processing stats"
  by (simp add: countStatus_def getFileStatus_def split: option.split)

lemma foldl_countStatus_processing:
  "processing (foldl (countStatus cache) stats fs) = processing stats"
  by (induction fs arbitrary: stats) (simp_all add: countStatus_processing)

text \<open>
  C5. \<^verbatim>\<open>getFileStatus\<close> depends only on the record stored for the path and on the
  modification time handed in: it is \<^verbatim>\<open>'new'\<close> without a record, \<^verbatim>\<open>'modified'\<close> when
  the file's time is strictly later than the record's \<^verbatim>\<open>embeddingGenerated\<close>, and
  \<^verbatim>\<open>'up-to-date'\<close> otherwise. A record with \<^verbatim>\<open>lastModified = 10\<close> and
  \<^verbatim>\<open>embeddingGenerated = 20\<close>, read for a file modified at 10, is up to date; a path
  without a record is new.
\<close>

theorem getFileStatus_spec:
  "(files cache (file_path file) = None \<longrightarrow> getFileStatus cache file = New)
   \<and> (\<forall>r. files cache (file_path file) = Some r \<longrightarrow>
          getFileStatus cache file
            = (if mtime file > embeddingGenerated r then Modified else UpToDate))
   \<and> (files cache (file_path file) = files cache' (file_path file')
          \<and> mtime file = mtime file'
        \<longrightarrow> getFileStatus cache file = getFileStatus cache' file')
   \<and> (\<forall>c p s fA fB.
          files c (file_path fA)
            = Some \<lparr>path = p, lastModified = 10, embeddingGenerated = 20, status = s\<rparr>
          \<and> mtime fA = 10 \<and> files c (file_path fB) = None
        \<longrightarrow> getFileStatus c fA = UpToDate \<and> getFileStatus c fB = New)"
  by (auto simp: getFileStatus_def split: option.splits)

theorem getFileStatus_spec_witness:
  "getFileStatus
      \<lparr>version = ''1.0.0'',
       files = [''A'' \<mapsto> \<lparr>path = ''A'', lastModified = 10, embeddingGenerated = 20,
                            status = UpToDate\<rparr>],
       embeddings = Map.empty\<rparr>
      \<lparr>file_path = ''A'', basename = ''A'', mtime = 10\<rparr> = UpToDate
   \<and> getFileStatus
      \<lparr>version = ''1.0.0'',
       files = [''A'' \<mapsto> \<lparr>path = ''A'', lastModified = 10, embeddingGenerated = 20,
                            status = UpToDate\<rparr>],
       embeddings = Map.empty\<rparr>
      \<lparr>file_path = ''A'', basename = ''A'', mtime = 21\<rparr> = Modified
   \<and> getFileStatus
      \<lparr>version = ''1.0.0'',
       files = [''A'' \<mapsto> \<lparr>path = ''A'', lastModified = 10, embeddingGenerated = 20,
                            status = UpToDate\<rparr>],
       embeddings = Map.empty\<rparr>
      \<lparr>file_path = ''B'', basename = ''B'', mtime = 10\<rparr> = New"
  using getFileStatus_spec
    [of "\<lparr>version = ''1.0.0'',
       files = [''A'' \<mapsto> \<lparr>path = ''A'', lastModified = 10, embeddingGenerated = 20,
                            status = UpToDate\<rparr>],
       embeddings = Map.empty\<rparr>"
      "\<lparr>file_path = ''A'', basename = ''A'', mtime = 10\<rparr>"]
    getFileStatus_spec
    [of "\<lparr>version = ''1.0.0'',
       files = [''A'' \<mapsto> \<lparr>path = ''A'', lastModified = 10, embeddingGenerated = 20,
                            status = UpToDate\<rparr>],
       embeddings = Map.empty\<rparr>"
      "\<lparr>file_path = ''A'', basename = ''A'', mtime = 21\<rparr>"]
    getFileStatus_spec
    [of "\<lparr>version = ''1.0.0'',
       files = [''A'' \<mapsto> \<lparr>path = ''A'', lastModified = 10, embeddingGenerated = 20,
                            status = UpToDate\<rparr>],
       embeddings = Map.empty\<rparr>"
      "\<lparr>file_path = ''B'', basename = ''B'', mtime = 10\<rparr>"]
  by simp

text \<open>
  C10. \<^verbatim>\<open>getFileStatus\<close> never answers \<^verbatim>\<open>'processing'\<close>: it reads the timestamps of
  the stored record and never its \<^verbatim>\<open>status\<close> field, so overwriting that field in
  every record leaves every answer unchanged, and the \<^verbatim>\<open>processing\<close> counter of
  \<^verbatim>\<open>getEmbeddingStats\<close> is always 0.
\<close>

theorem getFileStatus_never_processing:
  "getFileStatus cache file \<in> {New, Modified, UpToDate}
   \<and> getFileStatus cache file \<noteq> Processing
   \<and> getFileStatus
        (cache\<lparr>files := \<lambda>p. map_option (\<lambda>r. r\<lparr>status := st p\<rparr>) (files cache p)\<rparr>) file
       = getFileStatus cache file
   \<and> processing (getEmbeddingStats cache fs) = 0"
  by (auto simp: getFileStatus_def getEmbeddingStats_def foldl_countStatus_processing
      split: option.splits)


section \<open>Properties of the cosine similarity\<close>

lemma cosineSums_upto:
  "foldl (\<lambda>(dotProduct, magnitude1, magnitude2) i.
              (dotProduct + vec1 ! i * vec2 ! i,
               magnitude1 + vec1 ! i * vec1 ! i,
               magnitude2 + vec2 ! i * vec2 ! i))
       (0, 0, 0) [0..<n]
   = (\<Sum>i<n. vec1 ! i * vec2 ! i, \<Sum>i<n. vec1 ! i * vec1 ! i, \<Sum>i<n. vec2 ! i * vec2 ! i)"
  by (induction n) simp_all

lemma cosineSums_eq:
  "length u = length v \<Longrightarrow>
   cosineSums u v
     = (dot u v, (\<Sum>i<length u. u ! i * u ! i), (\<Sum>i<length v. v ! i * v ! i))"
  by (simp add: cosineSums_def cosineSums_upto dot_def)



lemma cosine_equal_length:
  "length u = length v \<Longrightarrow>
   calculateCosineSimilarity u v
     = Inr (if magnitude u = 0 \<or> magnitude v = 0 then 0
            else dot u v / (magnitude u * magnitude v))"
  by (simp add: calculateCosineSimilarity_def cosineSums_eq magnitude_def Let_def)



section \<open>Properties of the edge thickness\<close>

text \<open>
  C7, as the specification states it, fails on the code at a threshold of exactly 1:
  for a similarity of 1, a minimum thickness of 1/2 and a maximum of 8 the function
  computes \<^verbatim>\<open>0 / 0\<close> and returns \<^verbatim>\<open>NaN\<close>, and for a similarity of 9/10 it returns
  \<^verbatim>\<open>-Infinity\<close>; neither is the minimum thickness.
\<close>

theorem thickness_threshold_one_counterexample:
  "calculateThicknessFromSimilarity
     \<lparr>similarityThreshold = 1, maxSimilarLinksPerNode = Some 12,
      dynamicSimilarityPruning = Some False,
      minLinkThickness = 1/2, maxLinkThickness = 8\<rparr> 1 = NaN
   \<and> calculateThicknessFromSimilarity
     \<lparr>similarityThreshold = 1, maxSimilarLinksPerNode = Some 12,
      dynamicSimilarityPruning = Some False,
      minLinkThickness = 1/2, maxLinkThickness = 8\<rparr> (9/10) = NegInfinity
   \<and> NaN \<noteq> Finite (1/2) \<and> NegInfinity \<noteq> Finite (1/2)"
  by (simp add: calculateThicknessFromSimilarity_def js_div_def)

text \<open>
  C7, amended. For a threshold other than 1 the thickness is the finite number
  \<open>minThickness + ((s - threshold) / (1 - threshold)) * (maxThickness - minThickness)\<close>.
  At a threshold of exactly 1 the function divides by zero and, for
  \<open>minThickness \<le> maxThickness\<close>, returns \<^verbatim>\<open>NaN\<close> when \<open>s = 1\<close> or the two
  thicknesses are equal, \<^verbatim>\<open>-Infinity\<close> when \<open>s < 1\<close> and \<^verbatim>\<open>+Infinity\<close> when
  \<open>s > 1\<close>: never a finite thickness.
\<close>

theorem calculateThicknessFromSimilarity_amended:
  "(similarityThreshold st \<noteq> 1 \<longrightarrow>
      calculateThicknessFromSimilarity st s
        = Finite (minLinkThickness st
            + ((s - similarityThreshold st) / (1 - similarityThreshold st))
              * (maxLinkThickness st - minLinkThickness st)))
   \<and> (similarityThreshold st = 1 \<and> minLinkThickness st \<le> maxLinkThickness st \<longrightarrow>
      calculateThicknessFromSimilarity st s
        = (if s = 1 \<or> minLinkThickness st = maxLinkThickness st then NaN
           else if s < 1 then NegInfinity else PosInfinity))"
  by (auto simp: calculateThicknessFromSimilarity_def js_div_def)

theorem calculateThicknessFromSimilarity_amended_witness:
  "calculateThicknessFromSimilarity
     \<lparr>similarityThreshold = 1/2, maxSimilarLinksPerNode = Some 12,
      dynamicSimilarityPruning = Some False,
      minLinkThickness = 1, maxLinkThickness = 9\<rparr> (3/4) = Finite 5
   \<and> calculateThicknessFromSimilarity
     \<lparr>similarityThreshold = 1, maxSimilarLinksPerNode = Some 12,
      dynamicSimilarityPruning = Some False,
      minLinkThickness = 1, maxLinkThickness = 9\<rparr> (3/4) = NegInfinity"
  using calculateThicknessFromSimilarity_amended
      [of "\<lparr>similarityThreshold = 1/2, maxSimilarLinksPerNode = Some 12,
            dynamicSimilarityPruning = Some False,
            minLinkThickness = 1, maxLinkThickness = 9\<rparr>" "3/4"]
    calculateThicknessFromSimilarity_amended
      [of "\<lparr>similarityThreshold = 1, maxSimilarLinksPerNode = Some 12,
            dynamicSimilarityPruning = Some False,
            minLinkThickness = 1, maxLinkThickness = 9\<rparr>" "3/4"]
  by simp


section \<open>Properties of the per-node pruning\<close>

lemma foldl_plus_sum_list:
  "foldl (\<lambda>a b. a + g b) a xs = a + sum_list (map g xs)" for a :: real
  by (induction xs arbitrary: a) simp_all

lemma thresholdAdj_eq:
  "thresholdAdj st cs =
     (if dynamicSimilarityPruning st = Some True \<and> 4 \<le> length cs
      then max (similarityThreshold st)
             (mean (map sim cs) + 0.35 * populationStd (map sim cs))
      else similarityThreshold st)"
proof -
  have 1: "foldl (\<lambda>a b. a + b) 0 xs = sum_list xs" for xs :: "real list"
    using foldl_plus_sum_list [of "\<lambda>b. b" 0 xs] by simp
  have 2: "foldl (\<lambda>a b. a + (b - m) * (b - m)) 0 xs = sum_list (map (\<lambda>x. (x - m)\<^sup>2) xs)"
    for xs :: "real list" and m
    using foldl_plus_sum_list [of "\<lambda>b. (b - m) * (b - m)" 0 xs]
    by (simp add: power2_eq_square)
  show ?thesis
    by (auto simp: thresholdAdj_def useDynamic_def Let_def 1 2 mean_def populationStd_def
        split: option.splits)
qed

lemma thresholdAdj_ge: "similarityThreshold st \<le> thresholdAdj st cs"
  by (simp add: thresholdAdj_eq)


lemma pruneCandidates_eq:
  "pruneCandidates st cs =
     (let kept = sort_key (\<lambda>c. - sim c) (filter (\<lambda>c. sim c \<ge> thresholdAdj st cs) cs)
      in if maxLinks st > 0 then take (nat (maxLinks st)) kept else kept)"
  by (auto simp: pruneCandidates_def Let_def)

lemma pruneCandidates_subset:
  "c \<in> set (pruneCandidates st cs) \<Longrightarrow> c \<in> set cs \<and> sim c \<ge> thresholdAdj st cs"
  by (auto simp: pruneCandidates_eq Let_def dest!: in_set_takeD split: if_splits)





section \<open>Properties of the similarity links\<close>


lemma cands_Nil: "cands [] = {}"
  by (simp add: cands_def)

lemma cands_ensureKey: "cands (ensureKey m k) = cands m"
  by (auto simp: cands_def ensureKey_def)

lemma cands_pushCandidate: "cands (pushCandidate m k c) \<subseteq> cands m \<union> {(k, c)}"
  by (auto simp: cands_def pushCandidate_def split: if_splits)

lemma cands_addPair:
  "cands (addPair m a b s)
     \<subseteq> cands m \<union> {(a, \<lparr>otherId = b, sim = s\<rparr>), (b, \<lparr>otherId = a, sim = s\<rparr>)}"
proof -
  let ?m2 = "ensureKey (ensureKey m a) b"
  let ?m3 = "pushCandidate ?m2 a \<lparr>otherId = b, sim = s\<rparr>"
  have "cands (pushCandidate ?m3 b \<lparr>otherId = a, sim = s\<rparr>)
          \<subseteq> cands ?m3 \<union> {(b, \<lparr>otherId = a, sim = s\<rparr>)}"
    by (rule cands_pushCandidate)
  moreover have "cands ?m3 \<subseteq> cands ?m2 \<union> {(a, \<lparr>otherId = b, sim = s\<rparr>)}"
    by (rule cands_pushCandidate)
  moreover have "cands ?m2 = cands m"
    by (simp add: cands_ensureKey)
  ultimately show ?thesis
    by (auto simp: addPair_def Let_def)
qed

lemma innerLoop_cands:
  "innerLoop st manual nodeA ea m rest = Inr m' \<Longrightarrow> embedding nodeA = Some ea \<Longrightarrow>
   (k, c) \<in> cands m' \<Longrightarrow>
   (k, c) \<in> cands m \<or> (\<exists>nodeB\<in>set rest. scoredPair st nodeA nodeB k c)"
proof (induction rest arbitrary: m)
  case Nil
  then show ?case by simp
next
  case (Cons nodeB rest)
  show ?case
  proof (cases "embedding nodeB")
    case None
    with Cons show ?thesis by auto
  next
    case (Some eb)
    show ?thesis
    proof (cases "node_id nodeA @ ''|'' @ node_id nodeB \<in> manual")
      case True
      with Some Cons show ?thesis by auto
    next
      case False
      show ?thesis
      proof (cases "calculateCosineSimilarity ea eb")
        case (Inl e)
        with Some False Cons.prems show ?thesis by simp
      next
        case (Inr s)
        show ?thesis
        proof (cases "s \<ge> similarityThreshold st")
          case True
          with Some False Inr Cons.prems
          have "innerLoop st manual nodeA ea (addPair m (node_id nodeA) (node_id nodeB) s) rest = Inr m'"
            by simp
          from Cons.IH [OF this Cons.prems(2) Cons.prems(3)]
          consider "(k, c) \<in> cands (addPair m (node_id nodeA) (node_id nodeB) s)"
            | "\<exists>nodeB\<in>set rest. scoredPair st nodeA nodeB k c" by blast
          then show ?thesis
          proof cases
            case 1
            with cands_addPair [of m "node_id nodeA" "node_id nodeB" s]
            have "(k, c) \<in> cands m \<or> (k, c) = (node_id nodeA, \<lparr>otherId = node_id nodeB, sim = s\<rparr>)
                  \<or> (k, c) = (node_id nodeB, \<lparr>otherId = node_id nodeA, sim = s\<rparr>)"
              by blast
            moreover have "scoredPair st nodeA nodeB (node_id nodeA) \<lparr>otherId = node_id nodeB, sim = s\<rparr>"
              using Some Inr True Cons.prems(2) by (simp add: scoredPair_def)
            moreover have "scoredPair st nodeA nodeB (node_id nodeB) \<lparr>otherId = node_id nodeA, sim = s\<rparr>"
              using Some Inr True Cons.prems(2) by (simp add: scoredPair_def)
            ultimately show ?thesis by auto
          next
            case 2
            then show ?thesis by auto
          qed
        next
          case False': False
          with Some False Inr Cons.prems
          have "innerLoop st manual nodeA ea m rest = Inr m'" by simp
          from Cons.IH [OF this Cons.prems(2) Cons.prems(3)] show ?thesis by auto
        qed
      qed
    qed
  qed
qed

lemma outerLoop_cands:
  "outerLoop st manual m ns = Inr m' \<Longrightarrow> (k, c) \<in> cands m' \<Longrightarrow>
   (k, c) \<in> cands m \<or> (\<exists>a\<in>set ns. \<exists>b\<in>set ns. scoredPair st a b k c)"
proof (induction ns arbitrary: m)
  case Nil
  then show ?case by simp
next
  case (Cons nodeA rest)
  show ?case
  proof (cases "embedding nodeA")
    case None
    with Cons.prems have "outerLoop st manual m rest = Inr m'" by simp
    from Cons.IH [OF this Cons.prems(2)] show ?thesis by auto
  next
    case (Some ea)
    show ?thesis
    proof (cases "innerLoop st manual nodeA ea m rest")
      case (Inl e)
      with Some Cons.prems show ?thesis by simp
    next
      case (Inr m1)
      with Some Cons.prems have "outerLoop st manual m1 rest = Inr m'" by simp
      from Cons.IH [OF this Cons.prems(2)]
      consider "(k, c) \<in> cands m1" | "\<exists>a\<in>set rest. \<exists>b\<in>set rest. scoredPair st a b k c"
        by blast
      then show ?thesis
      proof cases
        case 1
        from innerLoop_cands [OF Inr Some 1] show ?thesis by auto
      next
        case 2
        then show ?thesis by auto
      qed
    qed
  qed
qed

lemma buildCandidates_cands:
  "buildCandidates st links ns = Inr m \<Longrightarrow> (k, c) \<in> cands m \<Longrightarrow>
   \<exists>a\<in>set ns. \<exists>b\<in>set ns. scoredPair st a b k c"
  using outerLoop_cands [of st "manualLinkPairs links" "[]" ns m k c]
  by (simp add: buildCandidates_def cands_Nil)


lemma addLinks_out:
  "addLinks st nodeId cs acc = acc' \<Longrightarrow> l \<in> set (snd acc') \<Longrightarrow>
   l \<in> set (snd acc)
   \<or> (\<exists>c\<in>set cs. source l = nodeId \<and> target l = otherId c \<and> similarity l = Some (sim c))"
proof (induction cs arbitrary: acc)
  case Nil
  then show ?case by simp
next
  case (Cons c cs)
  obtain added pushed where acc: "acc = (added, pushed)" by (cases acc)
  show ?case
  proof (cases "pairKey nodeId (otherId c) \<in> added")
    case True
    with Cons.prems acc have "addLinks st nodeId cs acc = acc'" by (simp add: Let_def)
    from Cons.IH [OF this Cons.prems(2)] show ?thesis by auto
  next
    case False
    let ?l = "\<lparr>source = nodeId, target = otherId c, link_id = nodeId @ ''<->'' @ otherId c,
               similarity = Some (sim c),
               thickness = Some (calculateThicknessFromSimilarity st (sim c)),
               type = None\<rparr>"
    from False Cons.prems acc
    have "addLinks st nodeId cs (insert (pairKey nodeId (otherId c)) added, pushed @ [?l]) = acc'"
      by (simp add: Let_def)
    from Cons.IH [OF this Cons.prems(2)] acc show ?thesis by auto
  qed
qed

lemma forEachNode_out:
  "l \<in> set (snd (forEachNode st acc (k, cs))) \<Longrightarrow>
   l \<in> set (snd acc)
   \<or> (\<exists>c\<in>set cs. sim c \<ge> thresholdAdj st cs \<and> source l = k \<and> target l = otherId c
         \<and> similarity l = Some (sim c))"
proof (cases "length cs = 0")
  case True
  assume "l \<in> set (snd (forEachNode st acc (k, cs)))"
  with True show ?thesis by (simp add: forEachNode_def)
next
  case False
  assume "l \<in> set (snd (forEachNode st acc (k, cs)))"
  with False have "l \<in> set (snd (addLinks st k (pruneCandidates st cs) acc))"
    by (simp add: forEachNode_def)
  from addLinks_out [OF refl this] pruneCandidates_subset [of _ st cs]
  show ?thesis by blast
qed

lemma foldl_forEachNode_out:
  "l \<in> set (snd (foldl (forEachNode st) acc m)) \<Longrightarrow>
   l \<in> set (snd acc)
   \<or> (\<exists>(k, cs)\<in>set m. \<exists>c\<in>set cs. sim c \<ge> thresholdAdj st cs \<and> source l = k
         \<and> target l = otherId c \<and> similarity l = Some (sim c))"
proof (induction m arbitrary: acc)
  case Nil
  then show ?case by simp
next
  case (Cons e m)
  obtain k cs where e: "e = (k, cs)" by (cases e)
  from Cons.prems have "l \<in> set (snd (foldl (forEachNode st) (forEachNode st acc (k, cs)) m))"
    by (simp add: e)
  from Cons.IH [OF this] consider "l \<in> set (snd (forEachNode st acc (k, cs)))"
    | "\<exists>(k, cs)\<in>set m. \<exists>c\<in>set cs. sim c \<ge> thresholdAdj st cs \<and> source l = k
         \<and> target l = otherId c \<and> similarity l = Some (sim c)" by blast
  then show ?case
  proof cases
    case 1
    from forEachNode_out [OF 1] e show ?thesis by auto
  next
    case 2
    then show ?thesis by auto
  qed
qed

lemma emittedLinks_out:
  "l \<in> set (emittedLinks st m) \<Longrightarrow>
   \<exists>k c. (k, c) \<in> cands m \<and> sim c \<ge> similarityThreshold st \<and> source l = k
         \<and> target l = otherId c \<and> similarity l = Some (sim c)"
proof -
  assume "l \<in> set (emittedLinks st m)"
  then have "l \<in> set (snd (foldl (forEachNode st) ({}, []) m))"
    by (simp add: emittedLinks_def)
  from foldl_forEachNode_out [OF this]
  obtain k cs c where "(k, cs) \<in> set m" "c \<in> set cs" "sim c \<ge> thresholdAdj st cs"
    "source l = k" "target l = otherId c" "similarity l = Some (sim c)"
    by auto
  moreover have "similarityThreshold st \<le> thresholdAdj st cs" by (rule thresholdAdj_ge)
  ultimately show ?thesis
    by (intro exI [of _ k] exI [of _ c]) (auto simp: cands_def)
qed

lemma dot_commute: "length u = length v \<Longrightarrow> dot u v = dot v u"
  by (simp add: dot_def mult.commute)

lemma cosine_commute: "calculateCosineSimilarity u v = calculateCosineSimilarity v u"
proof (cases "length u = length v")
  case True
  then show ?thesis
    by (simp add: cosine_equal_length dot_commute mult.commute disj_commute)
next
  case False
  then show ?thesis by (auto simp: calculateCosineSimilarity_def)
qed

lemma distinct_node_id:
  "distinct (map node_id ns) \<Longrightarrow> a \<in> set ns \<Longrightarrow> b \<in> set ns \<Longrightarrow> node_id a = node_id b \<Longrightarrow> a = b"
  by (meson distinct_map inj_onD)



text \<open>
  C1. Every entry of the candidate lists built by \<^verbatim>\<open>createEmbeddingBasedLinks\<close>
  has a similarity at or above the configured threshold, and every similarity link
  the function pushes carries a similarity at or above the threshold that is the
  cosine similarity of the embeddings of two nodes with the link's endpoints. When
  the node ids are pairwise distinct (they are the keys of \<^verbatim>\<open>nodeMap\<close>), the
  cosine similarity of the two endpoints of every pushed link is at or above the
  threshold: a pair scoring below the threshold is never emitted.
\<close>

theorem createEmbeddingBasedLinks_threshold:
  assumes "createEmbeddingBasedLinks st links nodesArray = Inr out"
  shows "(\<forall>m. buildCandidates st links nodesArray = Inr m \<longrightarrow>
            (\<forall>(k, cs)\<in>set m. \<forall>c\<in>set cs. sim c \<ge> similarityThreshold st))
         \<and> (\<forall>l\<in>set (drop (length links) out).
              \<exists>s. similarity l = Some s \<and> s \<ge> similarityThreshold st
                \<and> (\<exists>a\<in>set nodesArray. \<exists>b\<in>set nodesArray. \<exists>ea eb.
                       embedding a = Some ea \<and> embedding b = Some eb
                       \<and> calculateCosineSimilarity ea eb = Inr s
                       \<and> {node_id a, node_id b} = {source l, target l}))
         \<and> (distinct (map node_id nodesArray) \<longrightarrow>
              (\<forall>l\<in>set (drop (length links) out). \<forall>a\<in>set nodesArray. \<forall>b\<in>set nodesArray.
                 node_id a = source l \<and> node_id b = target l \<longrightarrow>
                 (\<exists>ea eb s. embedding a = Some ea \<and> embedding b = Some eb
                    \<and> calculateCosineSimilarity ea eb = Inr s
                    \<and> s \<ge> similarityThreshold st \<and> similarity l = Some s)))"
proof -
  from assms obtain m where m: "buildCandidates st links nodesArray = Inr m"
    and out: "out = links @ emittedLinks st m"
    by (auto simp: createEmbeddingBasedLinks_def split: sum.splits)
  have scored: "\<exists>a\<in>set nodesArray. \<exists>b\<in>set nodesArray. scoredPair st a b k c"
    if "(k, c) \<in> cands m" for k c
    using buildCandidates_cands [OF m that] .
  have A: "\<forall>(k, cs)\<in>set m. \<forall>c\<in>set cs. sim c \<ge> similarityThreshold st"
  proof (clarify)
    fix k cs c assume "(k, cs) \<in> set m" "c \<in> set cs"
    then have "(k, c) \<in> cands m" by (auto simp: cands_def)
    from scored [OF this] show "sim c \<ge> similarityThreshold st"
      by (auto simp: scoredPair_def split: option.splits)
  qed
  have link: "\<exists>a\<in>set nodesArray. \<exists>b\<in>set nodesArray. \<exists>ea eb s.
        embedding a = Some ea \<and> embedding b = Some eb
        \<and> calculateCosineSimilarity ea eb = Inr s \<and> s \<ge> similarityThreshold st
        \<and> similarity l = Some s
        \<and> ((source l = node_id a \<and> target l = node_id b)
           \<or> (source l = node_id b \<and> target l = node_id a))"
    if "l \<in> set (drop (length links) out)" for l
  proof -
    from that out have "l \<in> set (emittedLinks st m)" by simp
    from emittedLinks_out [OF this] obtain k c where kc: "(k, c) \<in> cands m"
      "source l = k" "target l = otherId c" "similarity l = Some (sim c)" by blast
    from scored [OF kc(1)] obtain a b where ab: "a \<in> set nodesArray" "b \<in> set nodesArray"
      "scoredPair st a b k c" by blast
    from ab(3) obtain ea eb where e: "embedding a = Some ea" "embedding b = Some eb"
      "calculateCosineSimilarity ea eb = Inr (sim c)" "sim c \<ge> similarityThreshold st"
      "(k = node_id a \<and> otherId c = node_id b) \<or> (k = node_id b \<and> otherId c = node_id a)"
      by (auto simp: scoredPair_def split: option.splits)
    with ab(1,2) kc show ?thesis
      by (intro bexI [of _ a] bexI [of _ b] exI [of _ ea] exI [of _ eb] exI [of _ "sim c"]) auto
  qed
  have B: "\<forall>l\<in>set (drop (length links) out).
              \<exists>s. similarity l = Some s \<and> s \<ge> similarityThreshold st
                \<and> (\<exists>a\<in>set nodesArray. \<exists>b\<in>set nodesArray. \<exists>ea eb.
                       embedding a = Some ea \<and> embedding b = Some eb
                       \<and> calculateCosineSimilarity ea eb = Inr s
                       \<and> {node_id a, node_id b} = {source l, target l})"
  proof
    fix l assume "l \<in> set (drop (length links) out)"
    from link [OF this] obtain a b ea eb s where
      "a \<in> set nodesArray" "b \<in> set nodesArray" "embedding a = Some ea" "embedding b = Some eb"
      "calculateCosineSimilarity ea eb = Inr s" "s \<ge> similarityThreshold st"
      "similarity l = Some s"
      "(source l = node_id a \<and> target l = node_id b) \<or> (source l = node_id b \<and> target l = node_id a)"
      by blast
    then show "\<exists>s. similarity l = Some s \<and> s \<ge> similarityThreshold st
                \<and> (\<exists>a\<in>set nodesArray. \<exists>b\<in>set nodesArray. \<exists>ea eb.
                       embedding a = Some ea \<and> embedding b = Some eb
                       \<and> calculateCosineSimilarity ea eb = Inr s
                       \<and> {node_id a, node_id b} = {source l, target l})"
      by (intro exI [of _ s] conjI bexI [of _ a] bexI [of _ b] exI [of _ ea] exI [of _ eb]) auto
  qed
  have C: "\<exists>ea eb s. embedding a = Some ea \<and> embedding b = Some eb
                    \<and> calculateCosineSimilarity ea eb = Inr s
                    \<and> s \<ge> similarityThreshold st \<and> similarity l = Some s"
    if d: "distinct (map node_id nodesArray)" and l: "l \<in> set (drop (length links) out)"
      and a: "a \<in> set nodesArray" and b: "b \<in> set nodesArray"
      and ids: "node_id a = source l \<and> node_id b = target l" for l a b
  proof -
    from link [OF l] obtain a' b' ea eb s where *:
      "a' \<in> set nodesArray" "b' \<in> set nodesArray" "embedding a' = Some ea" "embedding b' = Some eb"
      "calculateCosineSimilarity ea eb = Inr s" "s \<ge> similarityThreshold st"
      "similarity l = Some s"
      "(source l = node_id a' \<and> target l = node_id b') \<or> (source l = node_id b' \<and> target l = node_id a')"
      by blast
    from *(8) show ?thesis
    proof
      assume "source l = node_id a' \<and> target l = node_id b'"
      with ids have "a = a'" "b = b'"
        using distinct_node_id [OF d a *(1)] distinct_node_id [OF d b *(2)] by auto
      with * show ?thesis by auto
    next
      assume "source l = node_id b' \<and> target l = node_id a'"
      with ids have "a = b'" "b = a'"
        using distinct_node_id [OF d a *(2)] distinct_node_id [OF d b *(1)] by auto
      with * cosine_commute [of ea eb] show ?thesis by auto
    qed
  qed
  from A B C m show ?thesis by (auto simp del: split_paired_All)
qed


lemma cosABC:
  "calculateCosineSimilarity [1, 0] [1, 0] = Inr 1"
  "calculateCosineSimilarity [1, 0] [0, 1] = Inr 0"
  by (simp_all add: calculateCosineSimilarity_def cosineSums_def)

lemma buildCandidates_scenario:
  "buildCandidates
     \<lparr>similarityThreshold = 1/2, maxSimilarLinksPerNode = Some 0,
      dynamicSimilarityPruning = Some False, minLinkThickness = 1/2, maxLinkThickness = 8\<rparr>
     []
     [\<lparr>node_id = ''A'', embedding = Some [1, 0]\<rparr>,
      \<lparr>node_id = ''B'', embedding = Some [1, 0]\<rparr>,
      \<lparr>node_id = ''C'', embedding = Some [0, 1]\<rparr>]
   = Inr [(''A'', [\<lparr>otherId = ''B'', sim = 1\<rparr>]), (''B'', [\<lparr>otherId = ''A'', sim = 1\<rparr>])]"
  by (simp add: buildCandidates_def manualLinkPairs_def cosABC
      addPair_def ensureKey_def pushCandidate_def)

theorem createEmbeddingBasedLinks_threshold_witness:
  "createEmbeddingBasedLinks
     \<lparr>similarityThreshold = 1/2, maxSimilarLinksPerNode = Some 0,
      dynamicSimilarityPruning = Some False, minLinkThickness = 1/2, maxLinkThickness = 8\<rparr>
     []
     [\<lparr>node_id = ''A'', embedding = Some [1, 0]\<rparr>,
      \<lparr>node_id = ''B'', embedding = Some [1, 0]\<rparr>,
      \<lparr>node_id = ''C'', embedding = Some [0, 1]\<rparr>]
   = Inr [\<lparr>source = ''A'', target = ''B'', link_id = ''A<->B'', similarity = Some 1,
           thickness = Some (Finite 8), type = None\<rparr>]
   \<and> calculateCosineSimilarity [1, 0] [1, 0] = Inr 1 \<and> (1/2 :: real) \<le> 1"
proof -
  let ?st = "\<lparr>similarityThreshold = 1/2, maxSimilarLinksPerNode = Some 0,
      dynamicSimilarityPruning = Some False, minLinkThickness = 1/2, maxLinkThickness = 8\<rparr>"
  let ?ns = "[\<lparr>node_id = ''A'', embedding = Some [1, 0]\<rparr>,
      \<lparr>node_id = ''B'', embedding = Some [1, 0]\<rparr>,
      \<lparr>node_id = ''C'', embedding = Some [0, 1]\<rparr>]"
  let ?l = "\<lparr>source = ''A'', target = ''B'', link_id = ''A<->B'', similarity = Some 1,
           thickness = Some (Finite 8), type = None\<rparr>"
  have ev: "createEmbeddingBasedLinks ?st [] ?ns = Inr [?l]"
    by (simp add: createEmbeddingBasedLinks_def buildCandidates_scenario
        emittedLinks_def forEachNode_def
        pruneCandidates_def thresholdAdj_def useDynamic_def maxLinks_def pairKey_def
        calculateThicknessFromSimilarity_def js_div_def Let_def)
  have d: "distinct (map node_id ?ns)" by simp
  from createEmbeddingBasedLinks_threshold [OF ev, THEN conjunct2, THEN conjunct2, rule_format,
      OF d, of ?l "\<lparr>node_id = ''A'', embedding = Some [1, 0]\<rparr>"
        "\<lparr>node_id = ''B'', embedding = Some [1, 0]\<rparr>"]
  have "\<exists>s. calculateCosineSimilarity [1, 0] [1, 0] = Inr s \<and> s \<ge> 1/2 \<and> similarity ?l = Some s"
    by simp
  with ev show ?thesis by auto
qed



lemma pairKey_commute: "pairKey a b = pairKey b a"
  by (auto simp: pairKey_def)

lemma pairKey_unordered: "{a, b} = {c, d} \<Longrightarrow> pairKey a b = pairKey c d"
  by (auto simp: doubleton_eq_iff pairKey_commute)

lemma addLinks_keysOK: "keysOK acc \<Longrightarrow> keysOK (addLinks st nodeId cs acc)"
proof (induction cs arbitrary: acc)
  case Nil
  then show ?case by simp
next
  case (Cons c cs)
  obtain added pushed where acc: "acc = (added, pushed)" by (cases acc)
  show ?case
  proof (cases "pairKey nodeId (otherId c) \<in> added")
    case True
    with Cons acc show ?thesis by (simp add: Let_def)
  next
    case False
    let ?l = "\<lparr>source = nodeId, target = otherId c, link_id = nodeId @ ''<->'' @ otherId c,
               similarity = Some (sim c),
               thickness = Some (calculateThicknessFromSimilarity st (sim c)),
               type = None\<rparr>"
    have "keysOK (insert (pairKey nodeId (otherId c)) added, pushed @ [?l])"
      using Cons.prems False acc by (auto simp: keysOK_def linkKey_def)
    from Cons.IH [OF this] False acc show ?thesis by (simp add: Let_def)
  qed
qed

lemma forEachNode_keysOK: "keysOK acc \<Longrightarrow> keysOK (forEachNode st acc e)"
  by (cases e) (simp add: forEachNode_def addLinks_keysOK)

lemma foldl_forEachNode_keysOK: "keysOK acc \<Longrightarrow> keysOK (foldl (forEachNode st) acc m)"
  by (induction m arbitrary: acc) (simp_all add: forEachNode_keysOK)

lemma distinct_emittedLinks: "distinct (map linkKey (emittedLinks st m))"
proof -
  have "keysOK ({}, [])" by (simp add: keysOK_def)
  from foldl_forEachNode_keysOK [OF this, of st m] show ?thesis
    by (simp add: keysOK_def emittedLinks_def)
qed

text \<open>
  C2. The similarity links pushed by \<^verbatim>\<open>createEmbeddingBasedLinks\<close> connect each
  unordered pair of endpoints at most once: no two of them, at different positions,
  have the same set of endpoints, whichever of the two nodes' pruned lists held the
  pair.
\<close>

theorem createEmbeddingBasedLinks_no_duplicate_pair:
  assumes "createEmbeddingBasedLinks st links nodesArray = Inr out"
  shows "\<forall>i j. i < j \<and> j < length (drop (length links) out) \<longrightarrow>
           {source (drop (length links) out ! i), target (drop (length links) out ! i)}
             \<noteq> {source (drop (length links) out ! j), target (drop (length links) out ! j)}"
proof (intro allI impI)
  fix i j
  let ?new = "drop (length links) out"
  assume ij: "i < j \<and> j < length ?new"
  from assms obtain m where "out = links @ emittedLinks st m"
    by (auto simp: createEmbeddingBasedLinks_def split: sum.splits)
  then have "distinct (map linkKey ?new)"
    by (simp add: distinct_emittedLinks)
  with ij have "linkKey (?new ! i) \<noteq> linkKey (?new ! j)"
    by (auto simp: distinct_conv_nth)
  then show "{source (?new ! i), target (?new ! i)} \<noteq> {source (?new ! j), target (?new ! j)}"
    using pairKey_unordered unfolding linkKey_def by blast
qed


theorem createEmbeddingBasedLinks_no_duplicate_pair_witness:
  "createEmbeddingBasedLinks
     \<lparr>similarityThreshold = 1/2, maxSimilarLinksPerNode = Some 0,
      dynamicSimilarityPruning = Some False, minLinkThickness = 1/2, maxLinkThickness = 8\<rparr>
     []
     [\<lparr>node_id = ''A'', embedding = Some [1, 0]\<rparr>,
      \<lparr>node_id = ''B'', embedding = Some [1, 0]\<rparr>,
      \<lparr>node_id = ''C'', embedding = Some [1, 0]\<rparr>]
   = Inr [\<lparr>source = ''A'', target = ''B'', link_id = ''A<->B'', similarity = Some 1,
           thickness = Some (Finite 8), type = None\<rparr>,
          \<lparr>source = ''A'', target = ''C'', link_id = ''A<->C'', similarity = Some 1,
           thickness = Some (Finite 8), type = None\<rparr>,
          \<lparr>source = ''B'', target = ''C'', link_id = ''B<->C'', similarity = Some 1,
           thickness = Some (Finite 8), type = None\<rparr>]
   \<and> {''A'', ''B''} \<noteq> {''A'', ''C''} \<and> {''A'', ''C''} \<noteq> {''B'', ''C''}"
proof -
  let ?st = "\<lparr>similarityThreshold = 1/2, maxSimilarLinksPerNode = Some 0,
      dynamicSimilarityPruning = Some False, minLinkThickness = 1/2, maxLinkThickness = 8\<rparr>"
  let ?ns = "[\<lparr>node_id = ''A'', embedding = Some [1, 0]\<rparr>,
      \<lparr>node_id = ''B'', embedding = Some [1, 0]\<rparr>,
      \<lparr>node_id = ''C'', embedding = Some [1, 0]\<rparr>]"
  have bc: "buildCandidates ?st [] ?ns
      = Inr [(''A'', [\<lparr>otherId = ''B'', sim = 1\<rparr>, \<lparr>otherId = ''C'', sim = 1\<rparr>]),
             (''B'', [\<lparr>otherId = ''A'', sim = 1\<rparr>, \<lparr>otherId = ''C'', sim = 1\<rparr>]),
             (''C'', [\<lparr>otherId = ''A'', sim = 1\<rparr>, \<lparr>otherId = ''B'', sim = 1\<rparr>])]"
    by (simp add: buildCandidates_def manualLinkPairs_def cosABC
      addPair_def ensureKey_def pushCandidate_def)
  have ev: "createEmbeddingBasedLinks ?st [] ?ns
     = Inr [\<lparr>source = ''A'', target = ''B'', link_id = ''A<->B'', similarity = Some 1,
           thickness = Some (Finite 8), type = None\<rparr>,
          \<lparr>source = ''A'', target = ''C'', link_id = ''A<->C'', similarity = Some 1,
           thickness = Some (Finite 8), type = None\<rparr>,
          \<lparr>source = ''B'', target = ''C'', link_id = ''B<->C'', similarity = Some 1,
           thickness = Some (Finite 8), type = None\<rparr>]"
    by (simp add: createEmbeddingBasedLinks_def bc
        emittedLinks_def forEachNode_def
        pruneCandidates_def thresholdAdj_def useDynamic_def maxLinks_def pairKey_def
        calculateThicknessFromSimilarity_def js_div_def Let_def)
  from createEmbeddingBasedLinks_no_duplicate_pair [OF ev, rule_format, of 0 1]
    createEmbeddingBasedLinks_no_duplicate_pair [OF ev, rule_format, of 1 2]
  have "{''A'', ''B''} \<noteq> {''A'', ''C''} \<and> {''A'', ''C''} \<noteq> {''B'', ''C''}"
    by simp
  with ev show ?thesis by simp
qed



section \<open>Behaviour of the generation run on failures\<close>


lemma extract_alpha: "extractHeadingsAndFirstWords None ''alpha'' 100 = ''alpha''" by code_simp
lemma extract_x: "extractHeadingsAndFirstWords None ''x'' 100 = ''x''" by code_simp
lemma includes_429: "js_includes ''OpenAI API error: 429 Too Many Requests - quota'' ''429''" by code_simp


text \<open>
  C6 is not what the code does. The run below has three new files; the provider
  answers for \<^verbatim>\<open>A.md\<close> and throws an error mentioning \<^verbatim>\<open>429\<close> for \<^verbatim>\<open>X.md\<close>. The
  run stops without asking for \<^verbatim>\<open>P.md\<close>, which keeps having no record, and
  \<^verbatim>\<open>A.md\<close> stays up to date; but the \<^verbatim>\<open>break\<close> comes before the statement that
  marks the record \<^verbatim>\<open>'modified'\<close>, so the record of \<^verbatim>\<open>X.md\<close> is left with status
  \<^verbatim>\<open>'processing'\<close>, and \<^verbatim>\<open>getFileStatus\<close> then reports \<^verbatim>\<open>X.md\<close> as up to date.
\<close>

theorem quota_exceeded_leaves_processing:
  "(let env = \<lparr>read = (\<lambda>f. if file_path f = ''A.md'' then Inr ''alpha''
                         else if file_path f = ''X.md'' then Inr ''x'' else Inr ''pending''),
               getEmbedding = (\<lambda>t. if t = ''x''
                         then Inl ''OpenAI API error: 429 Too Many Requests - quota''
                         else Inr (Some [1])),
               now = (\<lambda>k. 100 + int k), plugin_settings = None\<rparr>;
        fs = [\<lparr>file_path = ''A.md'', basename = ''A'', mtime = 5\<rparr>,
              \<lparr>file_path = ''X.md'', basename = ''X'', mtime = 5\<rparr>,
              \<lparr>file_path = ''P.md'', basename = ''P'', mtime = 5\<rparr>];
        s = generateIncrementalEmbeddings env
              \<lparr>version = ''1.0.0'', files = Map.empty, embeddings = Map.empty\<rparr> fs
    in requested s = [''A.md'', ''X.md'']
       \<and> files (embeddingCache s) ''A.md''
           = Some \<lparr>path = ''A.md'', lastModified = 5, embeddingGenerated = 101, status = UpToDate\<rparr>
       \<and> files (embeddingCache s) ''X.md''
           = Some \<lparr>path = ''X.md'', lastModified = 5, embeddingGenerated = 102, status = Processing\<rparr>
       \<and> files (embeddingCache s) ''P.md'' = None
       \<and> map (getFileStatus (embeddingCache s)) fs = [UpToDate, UpToDate, New])"
  by (simp add: Let_def generateIncrementalEmbeddings_def needsUpdate_def getFileStatus_def
      processFile_def beginProcessing_def catchBlock_def storeResult_def setStatus_def
      setGenerated_def extract_alpha extract_x includes_429)


text \<open>
  C8 is not what the code does. When the provider returns an empty array for the
  only (new) file, no vector is stored and the failure is counted, but the record
  keeps the status \<^verbatim>\<open>'processing'\<close> it was given before the call; with its fresh
  \<^verbatim>\<open>embeddingGenerated\<close> the file is then reported up to date and the next run
  finds nothing to update.
\<close>

theorem empty_embedding_leaves_processing:
  "(let env = \<lparr>read = (\<lambda>f. Inr ''alpha''),
               getEmbedding = (\<lambda>t. Inr (Some [])),
               now = (\<lambda>k. 100 + int k), plugin_settings = None\<rparr>;
        fs = [\<lparr>file_path = ''X.md'', basename = ''X'', mtime = 5\<rparr>];
        s = generateIncrementalEmbeddings env
              \<lparr>version = ''1.0.0'', files = Map.empty, embeddings = Map.empty\<rparr> fs
    in files (embeddingCache s) ''X.md''
           = Some \<lparr>path = ''X.md'', lastModified = 5, embeddingGenerated = 100, status = Processing\<rparr>
       \<and> embeddings (embeddingCache s) ''X.md'' = None
       \<and> failed s = 1 \<and> processed s = 0
       \<and> getFileStatus (embeddingCache s) \<lparr>file_path = ''X.md'', basename = ''X'', mtime = 5\<rparr> = UpToDate
       \<and> needsUpdate (embeddingCache s) fs = [])"
  by (simp add: Let_def generateIncrementalEmbeddings_def needsUpdate_def getFileStatus_def
      processFile_def beginProcessing_def catchBlock_def storeResult_def setStatus_def
      setGenerated_def extract_alpha)



section \<open>Properties of the text normaliser\<close>


lemma split_ws_not_Nil: "split_ws b s \<noteq> []"
  by (induction s arbitrary: b) (auto split: list.splits)

lemma split_ws_no_space: "w \<in> set (split_ws b s) \<Longrightarrow> c \<in> set w \<Longrightarrow> \<not> is_space c"
proof (induction s arbitrary: b w)
  case Nil
  then show ?case by simp
next
  case (Cons x s)
  show ?case
  proof (cases "is_space x")
    case True
    with Cons.prems have "w \<in> set (split_ws True s) \<or> w = []"
      by (auto split: if_splits)
    with Cons.IH Cons.prems(2) show ?thesis by auto
  next
    case False
    obtain p ps where sp: "split_ws False s = p # ps"
      using split_ws_not_Nil [of False s] by (cases "split_ws False s") auto
    with False Cons.prems have "w = x # p \<or> w \<in> set ps" by auto
    then show ?thesis
    proof
      assume "w = x # p"
      with Cons.prems(2) have "c = x \<or> c \<in> set p" by auto
      moreover have "p \<in> set (split_ws False s)" by (simp add: sp)
      ultimately show ?thesis using False Cons.IH by blast
    next
      assume "w \<in> set ps"
      then have "w \<in> set (split_ws False s)" by (simp add: sp)
      with Cons.IH Cons.prems(2) show ?thesis by blast
    qed
  qed
qed

lemma split_ws_word:
  assumes "goodWord w"
  shows "split_ws b (w @ s) = (w @ hd (split_ws False s)) # tl (split_ws False s)"
  using assms
proof (induction w arbitrary: b)
  case Nil
  then show ?case by (simp add: goodWord_def)
next
  case (Cons x w)
  then have x: "\<not> is_space x" by (simp add: goodWord_def)
  show ?case
  proof (cases "w = []")
    case True
    obtain p ps where "split_ws False s = p # ps"
      using split_ws_not_Nil [of False s] by (cases "split_ws False s") auto
    with True x show ?thesis by simp
  next
    case False
    with Cons.prems have "goodWord w" by (simp add: goodWord_def)
    from Cons.IH [OF this, of False] x show ?thesis by simp
  qed
qed

lemma split_ws_join:
  "ws \<noteq> [] \<Longrightarrow> \<forall>w\<in>set ws. goodWord w \<Longrightarrow> split_ws b (join '' '' ws) = ws"
proof (induction "'' ''" ws arbitrary: b rule: join.induct)
  case 1
  then show ?case by simp
next
  case (2 x)
  then have "goodWord x" by simp
  from split_ws_word [OF this, of b "[]"] show ?case by simp
next
  case (3 x y ys)
  then have g: "goodWord x" and rest: "\<forall>w\<in>set (y # ys). goodWord w" by simp_all
  have "split_ws False ('' '' @ join '' '' (y # ys)) = [] # split_ws True (join '' '' (y # ys))"
    by (simp add: is_space_def)
  also have "split_ws True (join '' '' (y # ys)) = y # ys"
    using "3.hyps" [of True] rest by simp
  finally have "split_ws False ('' '' @ join '' '' (y # ys)) = [] # y # ys" .
  with split_ws_word [OF g, of b "'' '' @ join '' '' (y # ys)"] show ?case by simp
qed

lemma dropWhile_hd: "xs = [] \<or> \<not> P (hd xs) \<Longrightarrow> dropWhile P xs = xs"
  by (cases xs) auto

lemma trim_id: "s = [] \<or> (\<not> is_space (hd s) \<and> \<not> is_space (last s)) \<Longrightarrow> trim s = s"
proof -
  assume a: "s = [] \<or> (\<not> is_space (hd s) \<and> \<not> is_space (last s))"
  then have 1: "dropWhile is_space s = s" by (intro dropWhile_hd) auto
  from a have "rev s = [] \<or> \<not> is_space (hd (rev s))" by (auto simp: hd_rev)
  then have "dropWhile is_space (rev s) = rev s" by (rule dropWhile_hd)
  with 1 show ?thesis by (simp add: trim_def)
qed

lemma goodWord_ends: "goodWord w \<Longrightarrow> w \<noteq> [] \<and> \<not> is_space (hd w) \<and> \<not> is_space (last w)"
  by (auto simp: goodWord_def)

lemma join_ends:
  "ws \<noteq> [] \<Longrightarrow> \<forall>w\<in>set ws. goodWord w \<Longrightarrow>
   join '' '' ws \<noteq> [] \<and> \<not> is_space (hd (join '' '' ws)) \<and> \<not> is_space (last (join '' '' ws))"
proof (induction "'' ''" ws rule: join.induct)
  case 1
  then show ?case by simp
next
  case (2 x)
  then show ?case using goodWord_ends [of x] by simp
next
  case (3 x y ys)
  then have "goodWord x" by simp
  from goodWord_ends [OF this] 3 show ?case by (auto simp: hd_append)
qed

lemma trim_join: "\<forall>w\<in>set ws. goodWord w \<Longrightarrow> trim (join '' '' ws) = join '' '' ws"
proof (cases "ws = []")
  case True
  then show ?thesis by (simp add: trim_def)
next
  case False
  assume "\<forall>w\<in>set ws. goodWord w"
  from join_ends [OF False this] show ?thesis by (intro trim_id) simp
qed

lemma words_join:
  assumes "\<forall>w\<in>set ws. goodWord w"
  shows "filter (\<lambda>word. length word > 0) (split_ws False (join '' '' ws)) = ws"
proof (cases "ws = []")
  case True
  then show ?thesis by simp
next
  case False
  from split_ws_join [OF False assms] have "split_ws False (join '' '' ws) = ws" .
  moreover have "filter (\<lambda>word. length word > 0) ws = ws"
    using assms by (auto simp: goodWord_def intro: filter_True)
  ultimately show ?thesis by simp
qed

lemma filteredWords_good:
  "w \<in> set (filteredWords content) \<Longrightarrow> goodWord w \<and> toLowerCase w \<notin> set STOP"
  by (auto simp: filteredWords_def Let_def goodWord_def dest: split_ws_no_space)

lemma slice_from_zero: "0 \<le> n \<Longrightarrow> slice xs 0 (min (int (length xs)) n) = take (nat n) xs"
  by (auto simp: slice_def Let_def min_def)

lemma join_bar_Nil: "join '' | '' [] = []"
  by simp


lemma extract_plain_words:
  assumes skip: "wordSkip settings \<le> 0" and lim: "0 \<le> wordLimit"
    and hd: "excludeHeadings settings \<or> exec_headings True 0 content = []"
  shows "extractHeadingsAndFirstWords settings content wordLimit
           = join '' '' (take (nat wordLimit) (filteredWords content))"
proof -
  let ?fw = "filteredWords content"
  let ?sel = "take (nat wordLimit) ?fw"
  from skip have s0: "max 0 (wordSkip settings) = 0" by simp
  have sel: "slice ?fw 0 (min (int (length ?fw)) wordLimit) = ?sel"
    by (rule slice_from_zero [OF lim])
  have good: "\<forall>w\<in>set ?sel. goodWord w"
    using filteredWords_good by (auto dest!: in_set_takeD)
  from hd have "extractHeadingsAndFirstWords settings content wordLimit = trim (join '' '' ?sel)"
    by (auto simp: extractHeadingsAndFirstWords_def Let_def s0 sel)
  with trim_join [OF good] show ?thesis by simp
qed

lemma plain_alpha_beta: "plainText ''alpha beta''" by code_simp
lemma plain_beta_gamma: "plainText ''beta gamma''" by code_simp
lemma normalise_alpha_the_beta: "extractHeadingsAndFirstWords None ''alpha the beta'' 100 = ''alpha beta''" by code_simp
lemma normalise_skip_first: "extractHeadingsAndFirstWords
      (Some \<lparr>embeddingWordSkip = Some 1, excludeHeadingsFromEmbedding = Some True\<rparr>)
      ''alpha beta gamma'' 100 = ''beta gamma''" by code_simp
lemma normalise_skip_second: "extractHeadingsAndFirstWords
      (Some \<lparr>embeddingWordSkip = Some 1, excludeHeadingsFromEmbedding = Some True\<rparr>)
      ''beta gamma'' 100 = ''gamma''" by code_simp
lemma normalise_heading_first: "extractHeadingsAndFirstWords
      (Some \<lparr>embeddingWordSkip = Some 0, excludeHeadingsFromEmbedding = Some False\<rparr>)
      (''# Title'' @ [CHR 0x0A] @ ''body'') 100 = ''Title'' @ [CHR 0x0A, CHR 0x0A] @ ''body''" by code_simp
lemma plain_title_body: "plainText (''Title'' @ [CHR 0x0A, CHR 0x0A] @ ''body'')" by code_simp
lemma normalise_heading_second: "extractHeadingsAndFirstWords
      (Some \<lparr>embeddingWordSkip = Some 0, excludeHeadingsFromEmbedding = Some False\<rparr>)
      (''Title'' @ [CHR 0x0A, CHR 0x0A] @ ''body'') 100 = ''Title body''" by code_simp


text \<open>
  C9, as the specification states it, fails on the code. With a word skip of 1 the
  content \<open>alpha beta gamma\<close> is normalised to \<open>beta gamma\<close>, which has no
  headings, code blocks, links or front matter, and normalising that again skips
  one more word and gives \<open>gamma\<close>. With headings included and no skip, the
  content made of the heading line \<open># Title\<close> and the line \<open>body\<close> is normalised
  to \<open>Title\<close>, an empty line and \<open>body\<close>, which again is plain text, and
  normalising that gives the single line \<open>Title body\<close>.
\<close>

theorem extractHeadingsAndFirstWords_not_idempotent_counterexample:
  "extractHeadingsAndFirstWords
      (Some \<lparr>embeddingWordSkip = Some 1, excludeHeadingsFromEmbedding = Some True\<rparr>)
      ''alpha beta gamma'' 100 = ''beta gamma''
   \<and> plainText ''beta gamma''
   \<and> extractHeadingsAndFirstWords
      (Some \<lparr>embeddingWordSkip = Some 1, excludeHeadingsFromEmbedding = Some True\<rparr>)
      ''beta gamma'' 100 = ''gamma''
   \<and> ''gamma'' \<noteq> ''beta gamma''
   \<and> extractHeadingsAndFirstWords
      (Some \<lparr>embeddingWordSkip = Some 0, excludeHeadingsFromEmbedding = Some False\<rparr>)
      (''# Title'' @ [CHR 0x0A] @ ''body'') 100 = ''Title'' @ [CHR 0x0A, CHR 0x0A] @ ''body''
   \<and> plainText (''Title'' @ [CHR 0x0A, CHR 0x0A] @ ''body'')
   \<and> extractHeadingsAndFirstWords
      (Some \<lparr>embeddingWordSkip = Some 0, excludeHeadingsFromEmbedding = Some False\<rparr>)
      (''Title'' @ [CHR 0x0A, CHR 0x0A] @ ''body'') 100 = ''Title body''
   \<and> ''Title body'' \<noteq> ''Title'' @ [CHR 0x0A, CHR 0x0A] @ ''body''"
proof (intro conjI)
  show "''gamma'' \<noteq> ''beta gamma''" by simp
  show "''Title body'' \<noteq> ''Title'' @ [CHR 0x0A, CHR 0x0A] @ ''body''" by simp
qed (fact normalise_skip_first plain_beta_gamma normalise_skip_second
       normalise_heading_first plain_title_body normalise_heading_second)+

text \<open>
  C9, amended. Let the word skip be unset, zero or negative, the word limit be at
  least 0, and let headings be excluded (the default) or the content have no
  heading. If the output of the normaliser on the content has no front matter,
  headings, code blocks or links, then normalising the output again, with the same
  settings and limit, returns it unchanged.
\<close>

theorem extractHeadingsAndFirstWords_idempotent_amended:
  assumes skip: "wordSkip settings \<le> 0" and lim: "0 \<le> wordLimit"
    and hd: "excludeHeadings settings \<or> exec_headings True 0 content = []"
    and out: "out = extractHeadingsAndFirstWords settings content wordLimit"
    and plain: "plainText out"
  shows "extractHeadingsAndFirstWords settings out wordLimit = out"
proof -
  let ?sel = "take (nat wordLimit) (filteredWords content)"
  have o: "out = join '' '' ?sel"
    using extract_plain_words [OF skip lim hd] out by simp
  have good: "\<forall>w\<in>set ?sel. goodWord w \<and> toLowerCase w \<notin> set STOP"
    using filteredWords_good by (auto dest!: in_set_takeD)
  then have g: "\<forall>w\<in>set ?sel. goodWord w" by blast
  from plain have "bodyText out = trim out" by (simp add: plainText_def bodyText_def)
  also have "\<dots> = out" unfolding o by (rule trim_join [OF g])
  finally have body: "bodyText out = out" .
  have "filter (\<lambda>word. length word > 0) (split_ws False out) = ?sel"
    unfolding o by (rule words_join [OF g])
  moreover have "filter (\<lambda>w. toLowerCase w \<notin> set STOP) ?sel = ?sel"
    using good by (auto intro: filter_True)
  ultimately have fw: "filteredWords out = ?sel"
    by (simp add: filteredWords_def body Let_def)
  have "length ?sel \<le> nat wordLimit" by simp
  then have tk: "take (nat wordLimit) ?sel = ?sel" by simp
  from plain have "exec_headings True 0 out = []" by (simp add: plainText_def)
  then have "excludeHeadings settings \<or> exec_headings True 0 out = []" by simp
  from extract_plain_words [OF skip lim this]
  have "extractHeadingsAndFirstWords settings out wordLimit = join '' '' (take (nat wordLimit) ?sel)"
    by (simp only: fw)
  with tk o show ?thesis by simp
qed

theorem extractHeadingsAndFirstWords_idempotent_amended_witness:
  "extractHeadingsAndFirstWords None ''alpha the beta'' 100 = ''alpha beta''
   \<and> extractHeadingsAndFirstWords None ''alpha beta'' 100 = ''alpha beta''"
proof -
  have "wordSkip None \<le> 0" "(0::int) \<le> 100"
    "excludeHeadings None \<or> exec_headings True 0 ''alpha the beta'' = []"
    by (simp_all add: wordSkip_def excludeHeadings_def)
  from extractHeadingsAndFirstWords_idempotent_amended [OF this normalise_alpha_the_beta [symmetric] plain_alpha_beta]
    normalise_alpha_the_beta show ?thesis by simp
qed


end
